theory Spec2Isabelle
  imports Main "HOL-Library.AList"
begin

section \<open>Common types\<close>

text \<open>
  A \<open>time.Time\<close> instant is an integer number of nanoseconds. The code only stores
  instants, compares them with \<open>Equal\<close> and compares a difference of two instants
  (\<open>Sub\<close>, \<open>time.Since\<close>) with a constant of a few seconds or minutes; the saturation
  of \<open>Duration\<close> at the ends of the 64-bit range does not change such a comparison.
\<close>

type_synonym time = int

definition Second :: int where
  "Second = 1000000000"

definition Minute :: int where
  "Minute = 60 * Second"

section \<open>The job store (internal/jobs/store.go)\<close>

text \<open>
  Field names of different structs are prefixed where they would clash
  (\<open>FileResult.Name\<close> is \<open>fr_Name\<close>).
\<close>

record FileResult =
  fr_Name :: string
  fr_Path :: string
  fr_Status :: string
  fr_Error :: string

text \<open>
  \<open>Data\<close> is a Go map that may be nil (\<open>None\<close>); \<open>CompletedAt\<close> is a pointer to
  a time, nil until the job is stamped. A nil slice and an empty slice of files are
  both \<open>[]\<close>: the code only takes the length of \<open>Files\<close> and appends to it.
\<close>

record Job =
  Status :: string
  Message :: string
  Data :: "(string \<rightharpoonup> string) option"
  Progress :: int
  Operation :: string
  Files :: "FileResult list"
  OutputDir :: string
  FileCount :: int
  CompletedAt :: "time option"

text \<open>
  The store keeps pointers: \<open>jobs\<close> maps an id to the address of a \<open>Job\<close> object and
  \<open>heap\<close> holds the objects, so that a pointer obtained under the lock and used after
  it (as \<open>Subscribe\<close> does) reads the object as it is at that later moment.
  \<open>watchers\<close> maps an id to a slice of channels; a channel is an address too and
  \<open>chans\<close> holds the queue of snapshots buffered in it (capacity 10, oldest first).
  \<open>next_job\<close> and \<open>next_chan\<close> are the allocator: the next fresh addresses.

  Channels are closed only by \<open>unsubscribe\<close> and \<open>Cleanup\<close>, which take them off
  the watcher lists in the same critical section; these two are not part of this
  development, so every channel here is open.
\<close>

record Store =
  jobs :: "string \<rightharpoonup> nat"
  watchers :: "string \<rightharpoonup> nat list"
  heap :: "nat \<Rightarrow> Job"
  chans :: "nat \<Rightarrow> Job list"
  next_job :: nat
  next_chan :: nat

definition chanCap :: nat where
  "chanCap = 10"

definition zeroJob :: Job where
  "zeroJob = \<lparr>Status = [], Message = [], Data = None, Progress = 0, Operation = [],
     Files = [], OutputDir = [], FileCount = 0, CompletedAt = None\<rparr>"

definition NewStore :: Store where
  "NewStore = \<lparr>jobs = Map.empty, watchers = Map.empty, heap = (\<lambda>_. zeroJob),
     chans = (\<lambda>_. []), next_job = 0, next_chan = 0\<rparr>"

definition Create :: "string \<Rightarrow> Store \<Rightarrow> nat \<times> Store" where
  "Create jid s =
     (let j = next_job s in
      (j, s\<lparr>jobs := (jobs s)(jid \<mapsto> j),
            watchers := (watchers s)(jid \<mapsto> []),
            heap := (heap s)(j := zeroJob\<lparr>Status := ''pending'', Message := ''Job created'',
                                          Progress := 0, Files := []\<rparr>),
            next_job := Suc j\<rparr>))"

definition Get :: "string \<Rightarrow> Store \<Rightarrow> Job option" where
  "Get jid s = map_option (heap s) (jobs s jid)"

text \<open>\<open>s.watchers[id]\<close>: the zero value (a nil slice) for a missing key.\<close>

definition watchersOf :: "Store \<Rightarrow> string \<Rightarrow> nat list" where
  "watchersOf s jid = (case watchers s jid of None \<Rightarrow> [] | Some cs \<Rightarrow> cs)"

text \<open>
  \<open>copyJob\<close> copies six fields; \<open>OutputDir\<close> and \<open>CompletedAt\<close> keep their zero
  values and \<open>Data\<close> is always a fresh, non-nil map.
\<close>

definition copyJob :: "Job \<Rightarrow> Job" where
  "copyJob job =
     \<lparr>Status = Status job, Message = Message job,
      Data = Some (case Data job of None \<Rightarrow> Map.empty | Some m \<Rightarrow> m),
      Progress = Progress job, Operation = Operation job,
      Files = Files job, OutputDir = [], FileCount = FileCount job, CompletedAt = None\<rparr>"

text \<open>
  \<open>select { case ch <- jobCopy: default: }\<close>: the value is queued when the buffer has
  room and dropped otherwise.
\<close>

definition trySend :: "Job \<Rightarrow> (nat \<Rightarrow> Job list) \<Rightarrow> nat \<Rightarrow> (nat \<Rightarrow> Job list)" where
  "trySend v cs c = (if length (cs c) < chanCap then cs(c := cs c @ [v]) else cs)"

definition broadcastLocked :: "string \<Rightarrow> Store \<Rightarrow> Store" where
  "broadcastLocked jid s =
     (case jobs s jid of
        None \<Rightarrow> s
      | Some j \<Rightarrow> s\<lparr>chans := foldl (trySend (copyJob (heap s j))) (chans s) (watchersOf s jid)\<rparr>)"

definition terminal :: "string \<Rightarrow> bool" where
  "terminal status \<longleftrightarrow> status = ''success'' \<or> status = ''error''"

text \<open>
  \<open>now\<close> is what \<open>time.Now()\<close> returns inside the call; it is read only when the
  stamp is set.
\<close>

definition Update ::
  "time \<Rightarrow> string \<Rightarrow> string \<Rightarrow> string \<Rightarrow> (string \<rightharpoonup> string) option \<Rightarrow> Store \<Rightarrow> Store" where
  "Update now jid status message data s =
     (case jobs s jid of
        None \<Rightarrow> s
      | Some j \<Rightarrow>
          let job = heap s j;
              job = job\<lparr>Status := status, Message := message\<rparr>;
              job = (if data \<noteq> None then job\<lparr>Data := data\<rparr> else job);
              job = (if terminal status \<and> CompletedAt job = None
                     then job\<lparr>CompletedAt := Some now\<rparr> else job)
          in broadcastLocked jid (s\<lparr>heap := (heap s)(j := job)\<rparr>))"

definition UpdateProgress :: "string \<Rightarrow> int \<Rightarrow> Store \<Rightarrow> Store" where
  "UpdateProgress jid p0 s =
     (let p = (if p0 < 0 then 0 else if p0 > 100 then 100 else p0) in
      case jobs s jid of
        None \<Rightarrow> s
      | Some j \<Rightarrow> broadcastLocked jid (s\<lparr>heap := (heap s)(j := (heap s j)\<lparr>Progress := p\<rparr>)\<rparr>))"

definition UpdateWithOperation ::
  "time \<Rightarrow> string \<Rightarrow> string \<Rightarrow> string \<Rightarrow> (string \<rightharpoonup> string) option \<Rightarrow> string \<Rightarrow> Store
     \<Rightarrow> Store" where
  "UpdateWithOperation now jid status message data operation s =
     (case jobs s jid of
        None \<Rightarrow> s
      | Some j \<Rightarrow>
          let job = heap s j;
              job = job\<lparr>Status := status, Message := message\<rparr>;
              job = (if data \<noteq> None then job\<lparr>Data := data\<rparr> else job);
              job = job\<lparr>Operation := operation\<rparr>;
              job = (if terminal status \<and> CompletedAt job = None
                     then job\<lparr>CompletedAt := Some now\<rparr> else job)
          in broadcastLocked jid (s\<lparr>heap := (heap s)(j := job)\<rparr>))"

definition SetOutputDir :: "string \<Rightarrow> string \<Rightarrow> Store \<Rightarrow> Store" where
  "SetOutputDir jid outputDir s =
     (case jobs s jid of
        None \<Rightarrow> s
      | Some j \<Rightarrow> s\<lparr>heap := (heap s)(j := (heap s j)\<lparr>OutputDir := outputDir\<rparr>)\<rparr>)"

definition SetFiles :: "string \<Rightarrow> FileResult list \<Rightarrow> Store \<Rightarrow> Store" where
  "SetFiles jid files s =
     (case jobs s jid of
        None \<Rightarrow> s
      | Some j \<Rightarrow>
          s\<lparr>heap := (heap s)(j := (heap s j)\<lparr>Files := files, FileCount := int (length files)\<rparr>)\<rparr>)"

definition AddFile :: "string \<Rightarrow> FileResult \<Rightarrow> Store \<Rightarrow> Store" where
  "AddFile jid file s =
     (case jobs s jid of
        None \<Rightarrow> s
      | Some j \<Rightarrow>
          let files = Files (heap s j) @ [file] in
          broadcastLocked jid
            (s\<lparr>heap := (heap s)(j := (heap s j)\<lparr>Files := files, FileCount := int (length files)\<rparr>)\<rparr>))"

subsection \<open>Sequences of mutator calls\<close>

datatype mutation =
    MUpdate time string string string "(string \<rightharpoonup> string) option"
  | MUpdateProgress string int
  | MUpdateWithOperation time string string string "(string \<rightharpoonup> string) option" string
  | MSetOutputDir string string
  | MSetFiles string "FileResult list"
  | MAddFile string FileResult

fun mutate :: "mutation \<Rightarrow> Store \<Rightarrow> Store" where
  "mutate (MUpdate now jid status message data) s = Update now jid status message data s"
| "mutate (MUpdateProgress jid p) s = UpdateProgress jid p s"
| "mutate (MUpdateWithOperation now jid status message data operation) s =
     UpdateWithOperation now jid status message data operation s"
| "mutate (MSetOutputDir jid outputDir) s = SetOutputDir jid outputDir s"
| "mutate (MSetFiles jid files) s = SetFiles jid files s"
| "mutate (MAddFile jid file) s = AddFile jid file s"

fun mutateAll :: "mutation list \<Rightarrow> Store \<Rightarrow> Store" where
  "mutateAll [] s = s"
| "mutateAll (m # ms) s = mutateAll ms (mutate m s)"

text \<open>
  The time of the first call in the list that is an \<open>Update\<close> or
  \<open>UpdateWithOperation\<close> with a terminal status on an id that the table maps to the
  object \<open>j\<close>.
\<close>

fun firstTerminal :: "(string \<rightharpoonup> nat) \<Rightarrow> nat \<Rightarrow> mutation list \<Rightarrow> time option" where
  "firstTerminal tab j [] = None"
| "firstTerminal tab j (MUpdate now jid status message data # ms) =
     (if tab jid = Some j \<and> terminal status then Some now else firstTerminal tab j ms)"
| "firstTerminal tab j (MUpdateWithOperation now jid status message data operation # ms) =
     (if tab jid = Some j \<and> terminal status then Some now else firstTerminal tab j ms)"
| "firstTerminal tab j (m # ms) = firstTerminal tab j ms"

subsection \<open>The retention sweep\<close>

text \<open>
  One iteration of the loop of \<open>cleanupOldJobs\<close>, at key \<open>jid\<close>. The loop ranges over
  the map \<open>s.jobs\<close> while deleting from it; Go visits every key present at the start
  that has not been deleted meanwhile, in an unspecified order, and an iteration only
  deletes its own key. \<open>keys\<close> is that order.
\<close>

definition ttl :: int where
  "ttl = 10 * Minute"

definition sweepStep :: "time \<Rightarrow> string \<Rightarrow> Store \<Rightarrow> Store" where
  "sweepStep now jid s =
     (case jobs s jid of
        None \<Rightarrow> s
      | Some j \<Rightarrow>
         (case CompletedAt (heap s j) of
            None \<Rightarrow> s
          | Some t \<Rightarrow>
              if now - t > ttl then
                (if length (watchersOf s jid) = 0
                 then s\<lparr>jobs := (jobs s)(jid := None), watchers := (watchers s)(jid := None)\<rparr>
                 else s)
              else s))"

definition cleanupOldJobs :: "time \<Rightarrow> string list \<Rightarrow> Store \<Rightarrow> Store" where
  "cleanupOldJobs now keys s = fold (sweepStep now) keys s"

subsection \<open>Subscribing\<close>

text \<open>
  \<open>Subscribe\<close> has three parts. Under the lock it appends the new channel to the
  watcher list and reads the job pointer (\<open>Subscribe_locked\<close>). After \<open>Unlock\<close>
  it copies the job behind that pointer (\<open>Subscribe_copy\<close>, line 149) and then
  sends the copy on the channel with a blocking send (\<open>Subscribe_send\<close>, line
  150); \<open>None\<close> means that the send blocks because the buffer is full.
  \<open>Subscribe\<close> is a call during which no other goroutine touches the store. The
  \<open>unsubscribe\<close> closure it returns is not modelled.
\<close>

definition Subscribe_locked :: "string \<Rightarrow> Store \<Rightarrow> (nat \<times> nat option) \<times> Store" where
  "Subscribe_locked jid s =
     (let ch = next_chan s in
      ((ch, jobs s jid),
       s\<lparr>watchers := (watchers s)(jid \<mapsto> watchersOf s jid @ [ch]),
         chans := (chans s)(ch := []),
         next_chan := Suc ch\<rparr>))"

definition Subscribe_copy :: "nat option \<Rightarrow> Store \<Rightarrow> Job option" where
  "Subscribe_copy job s = map_option (\<lambda>j. copyJob (heap s j)) job"

definition Subscribe_send :: "nat \<Rightarrow> Job option \<Rightarrow> Store \<Rightarrow> Store option" where
  "Subscribe_send ch jobCopy s =
     (case jobCopy of
        None \<Rightarrow> Some s
      | Some c \<Rightarrow>
          if length (chans s ch) < chanCap
          then Some (s\<lparr>chans := (chans s)(ch := chans s ch @ [c])\<rparr>)
          else None)"

definition Subscribe :: "string \<Rightarrow> Store \<Rightarrow> (nat \<times> Store) option" where
  "Subscribe jid s =
     (case Subscribe_locked jid s of
        ((ch, job), s1) \<Rightarrow> map_option (Pair ch) (Subscribe_send ch (Subscribe_copy job s1) s1))"

text \<open>
  A call of \<open>Subscribe\<close> during which other goroutines make the mutator calls
  \<open>ms\<close> between its \<open>Unlock\<close> and its copy, and the mutator calls \<open>ms'\<close> between
  its copy and its send (each mutator holds the lock for its whole body).
  \<open>Subscribe\<close> is the case \<open>ms = []\<close>, \<open>ms' = []\<close>.
\<close>

definition Subscribe_during ::
  "string \<Rightarrow> mutation list \<Rightarrow> mutation list \<Rightarrow> Store \<Rightarrow> (nat \<times> Store) option" where
  "Subscribe_during jid ms ms' s =
     (case Subscribe_locked jid s of
        ((ch, job), s1) \<Rightarrow>
          (let s2 = mutateAll ms s1 in
           map_option (Pair ch) (Subscribe_send ch (Subscribe_copy job s2) (mutateAll ms' s2))))"

text \<open>
  What happens to the store after a subscription: mutator calls by the processing
  task and receives by a consumer (\<open>ERecv ch\<close> takes the oldest snapshot out of
  channel \<open>ch\<close>; on an empty channel the consumer waits and nothing happens).
\<close>

datatype event = EMut mutation | ERecv nat

fun step_event :: "event \<Rightarrow> Store \<Rightarrow> Store" where
  "step_event (EMut m) s = mutate m s"
| "step_event (ERecv ch) s = s\<lparr>chans := (chans s)(ch := tl (chans s ch))\<rparr>"

fun run_events :: "event list \<Rightarrow> Store \<Rightarrow> Store" where
  "run_events [] s = s"
| "run_events (e # es) s = run_events es (step_event e s)"

text \<open>The snapshots the consumer of channel \<open>ch\<close> takes out during the events.\<close>

fun received :: "nat \<Rightarrow> event list \<Rightarrow> Store \<Rightarrow> Job list" where
  "received ch [] s = []"
| "received ch (e # es) s =
     (if e = ERecv ch then take 1 (chans s ch) else []) @ received ch es (step_event e s)"

text \<open>The mutators that call \<open>broadcastLocked\<close>, and the id a call is addressed to.\<close>

fun broadcasts :: "mutation \<Rightarrow> bool" where
  "broadcasts (MSetOutputDir jid outputDir) = False"
| "broadcasts (MSetFiles jid files) = False"
| "broadcasts m = True"

fun mutation_id :: "mutation \<Rightarrow> string" where
  "mutation_id (MUpdate now jid status message data) = jid"
| "mutation_id (MUpdateProgress jid p) = jid"
| "mutation_id (MUpdateWithOperation now jid status message data operation) = jid"
| "mutation_id (MSetOutputDir jid outputDir) = jid"
| "mutation_id (MSetFiles jid files) = jid"
| "mutation_id (MAddFile jid file) = jid"

text \<open>
  The state of job \<open>jid\<close> (as \<open>copyJob\<close> shows it) after each broadcasting mutator
  call addressed to \<open>jid\<close>, in the order of the calls.
\<close>

fun snapshots :: "string \<Rightarrow> event list \<Rightarrow> Store \<Rightarrow> Job list" where
  "snapshots jid [] s = []"
| "snapshots jid (EMut m # es) s =
     (if broadcasts m \<and> mutation_id m = jid
      then (case jobs s jid of None \<Rightarrow> [] | Some j \<Rightarrow> [copyJob (heap (mutate m s) j)])
      else [])
     @ snapshots jid es (mutate m s)"
| "snapshots jid (e # es) s = snapshots jid es (step_event e s)"

text \<open>The buffer of channel \<open>ch\<close> has room whenever a mutator call is made.\<close>

fun neverFull :: "nat \<Rightarrow> event list \<Rightarrow> Store \<Rightarrow> bool" where
  "neverFull ch [] s = True"
| "neverFull ch (EMut m # es) s =
     (length (chans s ch) < chanCap \<and> neverFull ch es (mutate m s))"
| "neverFull ch (e # es) s = neverFull ch es (step_event e s)"

text \<open>
  Channels are allocated in increasing order: every channel in a watcher list is
  below \<open>next_chan\<close>, the next one to be allocated.
\<close>

definition chans_allocated :: "Store \<Rightarrow> bool" where
  "chans_allocated s \<longleftrightarrow> (\<forall>jid cs. watchers s jid = Some cs \<longrightarrow> (\<forall>c \<in> set cs. c < next_chan s))"

text \<open>Used in the proofs: channel \<open>ch\<close> is in the watcher list of \<open>jid\<close>, once, and in no other.\<close>

definition subscribed :: "nat \<Rightarrow> string \<Rightarrow> Store \<Rightarrow> bool" where
  "subscribed ch jid s \<longleftrightarrow>
     count_list (watchersOf s jid) ch = 1 \<and> (\<forall>k. k \<noteq> jid \<longrightarrow> ch \<notin> set (watchersOf s k))"

text \<open>Used in the proofs: the test the sweep makes on the job at key \<open>jid\<close>.\<close>

definition removable :: "time \<Rightarrow> Store \<Rightarrow> string \<Rightarrow> bool" where
  "removable now s jid \<longleftrightarrow>
     (case jobs s jid of
        None \<Rightarrow> False
      | Some j \<Rightarrow>
          (case CompletedAt (heap s j) of None \<Rightarrow> False | Some t \<Rightarrow> now - t > ttl)
          \<and> watchersOf s jid = [])"

section \<open>The outside world\<close>

text \<open>
  The services read the clock, walk and stat the file system, and run the
  \<open>qmldiff\<close> binary. What the outside answers is a parameter \<open>env\<close>; every
  interaction takes the answer at the current position \<open>step\<close> of the run and
  moves one position on, so that the outside may answer differently each time.
  \<open>cmds\<close> is the log of the commands run so far, each with whether it succeeded.

  A walk of \<open>filepath.WalkDir\<close> is the list of calls it makes to the callback:
  \<open>WalkErr e\<close> is a call with \<open>err != nil\<close>, \<open>Entry path isDir info loaded\<close> a
  call with no error for an entry whose \<open>d.IsDir()\<close> is \<open>isDir\<close>, whose
  \<open>d.Info()\<close> gives the modification time \<open>info\<close> (or fails, \<open>None\<close>), and for
  which \<open>Load(path)\<close> gives \<open>loaded\<close> (or fails, \<open>None\<close>) when the callback calls it.
\<close>

text \<open>
  Modelled from the spec: the struct \<open>Hashtab\<close> (its declaration and the function
  \<open>Load\<close> are not among the sources). The spec's SourceArtifact is
  \<open>{version, device, path, entry count, format variant, modification time}\<close>; the
  fields the code reads, other than for logging, are kept.
\<close>

record Hashtab =
  ht_Name :: string
  ht_Path :: string
  ht_OSVersion :: string
  ht_Device :: string

datatype walk_event =
    WalkErr string
  | Entry string bool "time option" "Hashtab option"

text \<open>
  \<open>exec\<close> answers a command line with \<open>None\<close> when \<open>cmd.Run()\<close> returns nil, and
  with the error text, the captured stderr and the captured stdout otherwise.
  \<open>progressPct\<close> stands for the float64 expression
  \<open>int(float64(i+1) / float64(len(qmdFiles)) * 100)\<close>, which is not computed here.
\<close>

record env =
  clock :: "nat \<Rightarrow> time"
  walkDir :: "nat \<Rightarrow> string \<Rightarrow> walk_event list"
  osStat :: "nat \<Rightarrow> string \<Rightarrow> time option"
  exec :: "nat \<Rightarrow> string list \<Rightarrow> (string \<times> string \<times> string) option"
  copyResult :: "nat \<Rightarrow> string \<Rightarrow> string \<Rightarrow> string option"
  progressPct :: "nat \<Rightarrow> nat \<Rightarrow> int"

record io =
  step :: nat
  cmds :: "(string list \<times> bool) list"

definition tick :: "io \<Rightarrow> io" where
  "tick w = w\<lparr>step := Suc (step w)\<rparr>"

definition time_Now :: "env \<Rightarrow> io \<Rightarrow> time \<times> io" where
  "time_Now e w = (clock e (step w), tick w)"

definition WalkDir :: "env \<Rightarrow> string \<Rightarrow> io \<Rightarrow> walk_event list \<times> io" where
  "WalkDir e root w = (walkDir e (step w) root, tick w)"

definition os_Stat :: "env \<Rightarrow> string \<Rightarrow> io \<Rightarrow> time option \<times> io" where
  "os_Stat e path w = (osStat e (step w) path, tick w)"

definition run_command ::
  "env \<Rightarrow> string list \<Rightarrow> io \<Rightarrow> (string \<times> string \<times> string) option \<times> io" where
  "run_command e argv w =
     (let r = exec e (step w) argv in
      (r, w\<lparr>step := Suc (step w), cmds := cmds w @ [(argv, r = None)]\<rparr>))"

definition copyFile :: "env \<Rightarrow> string \<Rightarrow> string \<Rightarrow> io \<Rightarrow> string option \<times> io" where
  "copyFile e src dst w = (copyResult e (step w) src dst, tick w)"

subsection \<open>Paths (path/filepath on a Unix system)\<close>

fun splitPath :: "string \<Rightarrow> string list" where
  "splitPath [] = [[]]"
| "splitPath (c # cs) =
     (if c = CHR ''/'' then [] # splitPath cs
      else (case splitPath cs of [] \<Rightarrow> [[c]] | x # xs \<Rightarrow> (c # x) # xs))"

fun strings_Join :: "string list \<Rightarrow> string \<Rightarrow> string" where
  "strings_Join [] sep = []"
| "strings_Join [x] sep = x"
| "strings_Join (x # xs) sep = x @ sep @ strings_Join xs sep"

text \<open>
  \<open>Clean\<close>, element by element: empty and \<open>.\<close> elements go; a \<open>..\<close> removes the
  element before it, is dropped at the root, and is kept at the front of a relative
  path.
\<close>

fun cleanElems :: "bool \<Rightarrow> string list \<Rightarrow> string list \<Rightarrow> string list" where
  "cleanElems rooted [] out = out"
| "cleanElems rooted (c # cs) out =
     (if c = [] \<or> c = ''.'' then cleanElems rooted cs out
      else if c = ''..'' then
        (if out \<noteq> [] \<and> last out \<noteq> ''..'' then cleanElems rooted cs (butlast out)
         else if rooted then cleanElems rooted cs out
         else cleanElems rooted cs (out @ [''..'']))
      else cleanElems rooted cs (out @ [c]))"

definition filepath_Clean :: "string \<Rightarrow> string" where
  "filepath_Clean path =
     (if path = [] then ''.''
      else let rooted = (hd path = CHR ''/'');
               out = strings_Join (cleanElems rooted (splitPath path) []) ''/'';
               res = (if rooted then ''/'' @ out else out)
           in if res = [] then ''.'' else res)"

definition filepath_Join :: "string list \<Rightarrow> string" where
  "filepath_Join elem =
     (case dropWhile (\<lambda>e. e = []) elem of
        [] \<Rightarrow> []
      | es \<Rightarrow> filepath_Clean (strings_Join es ''/''))"

definition filepath_Base :: "string \<Rightarrow> string" where
  "filepath_Base path =
     (if path = [] then ''.''
      else let p = rev (dropWhile (\<lambda>c. c = CHR ''/'') (rev path));
               b = rev (takeWhile (\<lambda>c. c \<noteq> CHR ''/'') (rev p))
           in if b = [] then ''/'' else b)"

section \<open>The source registry (pkg/hashtab/service.go)\<close>

text \<open>
  \<open>modTimes\<close> is the one map the code ranges over; it is an association list
  (looked up with \<open>map_of\<close>, stored into with \<open>AList.update\<close>). The loop over it only
  asks whether some key is missing elsewhere, which does not depend on the order.
  The zero \<open>time.Time\<close> of a fresh \<open>lastReloadCheck\<close> is year 1 of the calendar.
\<close>

record HService =
  hashtables :: "Hashtab list"
  dir :: string
  modTimes :: "(string \<times> time) list"
  pathByName :: "string \<rightharpoonup> string"
  byVersion :: "string \<rightharpoonup> Hashtab list"
  lastReloadCheck :: time

definition zeroTime :: time where
  "zeroTime = - 62135596800 * Second"

definition emptyService :: "string \<Rightarrow> HService" where
  "emptyService d = \<lparr>hashtables = [], dir = d, modTimes = [], pathByName = Map.empty,
     byVersion = Map.empty, lastReloadCheck = zeroTime\<rparr>"

definition GetHashtabsForVersion :: "HService \<Rightarrow> string \<Rightarrow> Hashtab list" where
  "GetHashtabsForVersion s version = (case byVersion s version of None \<Rightarrow> [] | Some hs \<Rightarrow> hs)"

text \<open>
  The callback of the loading walk (the same text in \<open>loadHashtables\<close> and in the
  second half of \<open>CheckAndReload\<close>), run over the calls of one walk. It returns the
  error that ends the walk, if any, and the service as the calls so far have left it.
\<close>

fun loadWalk ::
  "walk_event list \<Rightarrow> (string \<rightharpoonup> string) \<Rightarrow> HService \<Rightarrow> string option \<times> HService" where
  "loadWalk [] loadedNames s = (None, s)"
| "loadWalk (WalkErr err # evs) loadedNames s = (Some err, s)"
| "loadWalk (Entry path isDir info loaded # evs) loadedNames s =
     (if isDir then loadWalk evs loadedNames s
      else
        let filename = filepath_Base path in
        if loadedNames filename \<noteq> None then loadWalk evs loadedNames s
        else
          (case loaded of
             None \<Rightarrow> loadWalk evs loadedNames s
           | Some ht \<Rightarrow>
               let s = s\<lparr>hashtables := hashtables s @ [ht]\<rparr>;
                   loadedNames = loadedNames(filename \<mapsto> path);
                   s = s\<lparr>pathByName := (pathByName s)(filename \<mapsto> path)\<rparr>;
                   s = s\<lparr>byVersion := (byVersion s)(ht_OSVersion ht \<mapsto>
                          GetHashtabsForVersion s (ht_OSVersion ht) @ [ht])\<rparr>;
                   s = (case info of
                          None \<Rightarrow> s
                        | Some t \<Rightarrow> s\<lparr>modTimes := AList.update path t (modTimes s)\<rparr>)
               in loadWalk evs loadedNames s))"

definition loadHashtables :: "env \<Rightarrow> HService \<Rightarrow> io \<Rightarrow> string option \<times> HService \<times> io" where
  "loadHashtables e s w =
     (let (evs, w) = WalkDir e (dir s) w in
      case loadWalk evs Map.empty s of
        (Some err, s) \<Rightarrow> (Some (''failed to walk hashtable directory: '' @ err), s, w)
      | (None, s) \<Rightarrow> (None, s, w))"

text \<open>
  \<open>NewService\<close> for a directory that exists (the branch that creates a missing
  directory returns the empty service without a scan).
\<close>

definition NewService :: "env \<Rightarrow> string \<Rightarrow> io \<Rightarrow> (string + HService) \<times> io" where
  "NewService e d w =
     (case loadHashtables e (emptyService d) w of
        (Some err, s, w) \<Rightarrow> (Inl err, w)
      | (None, s, w) \<Rightarrow> (Inr s, w))"

text \<open>
  The callback of the first walk of \<open>CheckAndReload\<close>: it fills \<open>currentFiles\<close>
  and raises \<open>needsReload\<close>, and touches nothing of the service.
\<close>

fun detectWalk ::
  "(string \<times> time) list \<Rightarrow> walk_event list \<Rightarrow> (string \<times> time) list \<Rightarrow> bool
     \<Rightarrow> string + ((string \<times> time) list \<times> bool)" where
  "detectWalk known [] currentFiles needsReload = Inr (currentFiles, needsReload)"
| "detectWalk known (WalkErr err # evs) currentFiles needsReload = Inl err"
| "detectWalk known (Entry path isDir info loaded # evs) currentFiles needsReload =
     (if isDir then detectWalk known evs currentFiles needsReload
      else
        (case info of
           None \<Rightarrow> detectWalk known evs currentFiles needsReload
         | Some modTime \<Rightarrow>
             detectWalk known evs (AList.update path modTime currentFiles)
               (if map_of known path \<noteq> Some modTime then True else needsReload)))"

text \<open>The result is the pair \<open>(reloaded, err)\<close> that the Go function returns.\<close>

definition CheckAndReload ::
  "env \<Rightarrow> HService \<Rightarrow> io \<Rightarrow> (bool \<times> string option) \<times> HService \<times> io" where
  "CheckAndReload e s w =
     (let (now, w) = time_Now e w in
      if now - lastReloadCheck s < 5 * Second then ((False, None), s, w)
      else
        let (now, w) = time_Now e w;
            s = s\<lparr>lastReloadCheck := now\<rparr>;
            (evs, w) = WalkDir e (dir s) w
        in
        case detectWalk (modTimes s) evs [] False of
          Inl err \<Rightarrow> ((False, Some (''failed to walk hashtable directory: '' @ err)), s, w)
        | Inr (currentFiles, needsReload) \<Rightarrow>
            let needsReload =
                  (if \<not> needsReload
                   then list_ex (\<lambda>(path, t). map_of currentFiles path = None) (modTimes s)
                   else needsReload)
            in
            if \<not> needsReload then ((False, None), s, w)
            else
              let s = s\<lparr>hashtables := [], modTimes := [], pathByName := Map.empty,
                        byVersion := Map.empty\<rparr>;
                  (evs, w) = WalkDir e (dir s) w
              in
              case loadWalk evs Map.empty s of
                (Some err, s) \<Rightarrow> ((False, Some (''failed to reload hashtables: '' @ err)), s, w)
              | (None, s) \<Rightarrow> ((True, None), s, w))"

section \<open>The derived-artifact cache (pkg/gcdcache)\<close>

record GCDHashtab =
  gcd_Version :: string
  gcd_Path :: string
  gcd_SourceModTime :: time
  gcd_DeviceCount :: int

text \<open>
  The cache holds a pointer to the registry; the registry is passed beside it
  (read by \<open>generateGCD\<close>, updated by \<open>GetGCDHashtab\<close>).
\<close>

record GService =
  gcdDir :: string
  qmldiffBinary :: string
  gcdHashtabs :: "string \<rightharpoonup> GCDHashtab"
  sourceModTimes :: "string \<rightharpoonup> (string \<rightharpoonup> time)"

definition newline :: string where
  "newline = [CHR 0x0A]"

definition runQmldiff :: "env \<Rightarrow> string \<Rightarrow> string list \<Rightarrow> io \<Rightarrow> string option \<times> io" where
  "runQmldiff e binary args w =
     (case run_command e (binary # args) w of
        (None, w) \<Rightarrow> (None, w)
      | (Some (err, stderr, stdout), w) \<Rightarrow>
          (Some (''command failed: '' @ err @ newline @ ''stderr: '' @ stderr @ newline
                 @ ''stdout: '' @ stdout), w))"

text \<open>The loop of lines 103 to 107: the modification time of every source that can be stat'ed.\<close>

fun statSources ::
  "env \<Rightarrow> Hashtab list \<Rightarrow> (string \<rightharpoonup> time) \<Rightarrow> io \<Rightarrow> (string \<rightharpoonup> time) \<times> io" where
  "statSources e [] mods w = (mods, w)"
| "statSources e (ht # hts) mods w =
     (case os_Stat e (ht_Path ht) w of
        (Some t, w) \<Rightarrow> statSources e hts (mods(ht_Path ht \<mapsto> t)) w
      | (None, w) \<Rightarrow> statSources e hts mods w)"

definition generateGCD ::
  "env \<Rightarrow> string \<Rightarrow> HService \<Rightarrow> GService \<Rightarrow> io \<Rightarrow> string option \<times> GService \<times> io" where
  "generateGCD e version h s w =
     (let hashtabs = GetHashtabsForVersion h version in
      if length hashtabs = 0 then (Some (''no hashtabs found for version '' @ version), s, w)
      else if length hashtabs = 1 then
        let (t1, w) = time_Now e w;
            (t2, w) = time_Now e w
        in (None,
            s\<lparr>gcdHashtabs := (gcdHashtabs s)(version \<mapsto>
                 \<lparr>gcd_Version = version, gcd_Path = ht_Path (hashtabs ! 0),
                  gcd_SourceModTime = t1, gcd_DeviceCount = 1\<rparr>),
              sourceModTimes := (sourceModTimes s)(version \<mapsto>
                 [ht_Path (hashtabs ! 0) \<mapsto> t2])\<rparr>,
            w)
      else
        let outputPath = filepath_Join [gcdDir s, version @ ''.gcd''];
            args = [''gcd-hashtab'', outputPath] @ map ht_Path hashtabs
        in
        case runQmldiff e (qmldiffBinary s) args w of
          (Some err, w) \<Rightarrow> (Some (''qmldiff gcd-hashtab failed: '' @ err), s, w)
        | (None, w) \<Rightarrow>
            let (t, w) = time_Now e w;
                (mods, w) = statSources e hashtabs Map.empty w
            in (None,
                s\<lparr>gcdHashtabs := (gcdHashtabs s)(version \<mapsto>
                     \<lparr>gcd_Version = version, gcd_Path = outputPath,
                      gcd_SourceModTime = t, gcd_DeviceCount = int (length hashtabs)\<rparr>),
                  sourceModTimes := (sourceModTimes s)(version \<mapsto> mods)\<rparr>,
                w))"

text \<open>
  The loop of lines 141 to 148: it stops at the first source that can be stat'ed
  and whose time is not the recorded one (or is not recorded).
\<close>

fun sourcesChanged :: "env \<Rightarrow> Hashtab list \<Rightarrow> (string \<rightharpoonup> time) \<Rightarrow> io \<Rightarrow> bool \<times> io" where
  "sourcesChanged e [] sourceMods w = (False, w)"
| "sourcesChanged e (ht # hts) sourceMods w =
     (case os_Stat e (ht_Path ht) w of
        (Some t, w) \<Rightarrow>
          if sourceMods (ht_Path ht) \<noteq> Some t then (True, w)
          else sourcesChanged e hts sourceMods w
      | (None, w) \<Rightarrow> sourcesChanged e hts sourceMods w)"

text \<open>Lines 127 to 150: whether the cached entry has to be regenerated.\<close>

definition needsRegen :: "env \<Rightarrow> string \<Rightarrow> HService \<Rightarrow> GService \<Rightarrow> io \<Rightarrow> bool \<times> io" where
  "needsRegen e version h s w =
     (case gcdHashtabs s version of
        None \<Rightarrow> (True, w)
      | Some g \<Rightarrow>
          let sourceMods = (case sourceModTimes s version of None \<Rightarrow> Map.empty | Some m \<Rightarrow> m);
              hashtabs = GetHashtabsForVersion h version
          in if int (length hashtabs) \<noteq> gcd_DeviceCount g then (True, w)
             else sourcesChanged e hashtabs sourceMods w)"

text \<open>Lines 159 to 167: the answer from the cache.\<close>

definition cachedPath :: "GService \<Rightarrow> string \<Rightarrow> string + string" where
  "cachedPath s version =
     (case gcdHashtabs s version of
        None \<Rightarrow> Inl (''GCD hashtab not found for version '' @ version)
      | Some g \<Rightarrow> Inr (gcd_Path g))"

definition GetGCDHashtab ::
  "env \<Rightarrow> string \<Rightarrow> HService \<Rightarrow> GService \<Rightarrow> io
     \<Rightarrow> (string + string) \<times> HService \<times> GService \<times> io" where
  "GetGCDHashtab e version h s w =
     (case CheckAndReload e h w of
        ((reloaded, err), h, w) \<Rightarrow>
          if reloaded then
            (case generateGCD e version h s w of
               (Some err, s, w) \<Rightarrow> (Inl err, h, s, w)
             | (None, s, w) \<Rightarrow> (cachedPath s version, h, s, w))
          else
            (case needsRegen e version h s w of
               (True, w) \<Rightarrow>
                 (case generateGCD e version h s w of
                    (Some err, s, w) \<Rightarrow> (Inl err, h, s, w)
                  | (None, s, w) \<Rightarrow> (cachedPath s version, h, s, w))
             | (False, w) \<Rightarrow> (cachedPath s version, h, s, w)))"

section \<open>The processing task (internal/handlers/api.go, internal/qmldiff/service.go)\<close>

definition HashDiffs :: "env \<Rightarrow> string \<Rightarrow> string \<Rightarrow> string \<Rightarrow> io \<Rightarrow> string option \<times> io" where
  "HashDiffs e binaryPath hashtabPath qmdPath w =
     (case run_command e [binaryPath, ''hash-diffs'', hashtabPath, qmdPath] w of
        (None, w) \<Rightarrow> (None, w)
      | (Some (err, stderr, stdout), w) \<Rightarrow>
          (Some (''hash-diffs failed: '' @ err @ newline @ ''stderr: '' @ stderr @ newline
                 @ ''stdout: '' @ stdout), w))"

text \<open>The decimal digits that \<open>%d\<close> prints for a count.\<close>

fun itoa :: "nat \<Rightarrow> string" where
  "itoa n = (if n < 10 then [''0123456789'' ! n]
             else itoa (n div 10) @ [''0123456789'' ! (n mod 10)])"

declare itoa.simps [simp del]

text \<open>
  The handler points to the three services; the cache points to the registry.
  \<open>qmldiffService\<close> is the \<open>binaryPath\<close> of the qmldiff service.
\<close>

record System =
  hashtabService :: HService
  gcdCache :: GService
  qmldiffService :: string
  jobStore :: Store

text \<open>
  Lines 176 to 179 of \<open>Hash\<close>: the job is created, its \<open>FileCount\<close> is set through
  the pointer that \<open>Create\<close> returns, and its output directory is stored.
\<close>

definition submitJob :: "string \<Rightarrow> string list \<Rightarrow> string \<Rightarrow> Store \<Rightarrow> Store" where
  "submitJob jobID qmdFiles outputDir st =
     (case Create jobID st of
        (job, st) \<Rightarrow>
          SetOutputDir jobID outputDir
            (st\<lparr>heap := (heap st)(job := (heap st job)\<lparr>FileCount := int (length qmdFiles)\<rparr>)\<rparr>))"

definition errorResult :: "string \<Rightarrow> string \<Rightarrow> FileResult" where
  "errorResult relPath msg =
     \<lparr>fr_Name = relPath, fr_Path = relPath, fr_Status = ''error'', fr_Error = msg\<rparr>"

definition successResult :: "string \<Rightarrow> FileResult" where
  "successResult relPath =
     \<lparr>fr_Name = relPath, fr_Path = relPath, fr_Status = ''success'', fr_Error = []\<rparr>"

text \<open>
  The loop of lines 208 to 244, at index \<open>i\<close> with the files from \<open>i\<close> on still to
  do; \<open>n\<close> is \<open>len(qmdFiles)\<close>. \<open>relPaths[i]\<close> panics when \<open>relPaths\<close> is too short:
  the result is \<open>None\<close> then. Removing a file or a directory (\<open>os.Remove\<close>,
  \<open>os.RemoveAll\<close>) has no effect that the task reads back and is left out.
\<close>

fun hashFiles ::
  "env \<Rightarrow> string \<Rightarrow> string \<Rightarrow> string \<Rightarrow> string \<Rightarrow> nat \<Rightarrow> string list \<Rightarrow> nat \<Rightarrow> string list
     \<Rightarrow> FileResult list \<Rightarrow> nat \<Rightarrow> Store \<Rightarrow> io \<Rightarrow> (FileResult list \<times> nat \<times> Store \<times> io) option" where
  "hashFiles e binaryPath jobID gcdPath outputDir n relPaths i [] results successCount st w =
     Some (results, successCount, st, w)"
| "hashFiles e binaryPath jobID gcdPath outputDir n relPaths i (inputPath # rest) results
     successCount st w =
     (if i < length relPaths then
        let relPath = relPaths ! i;
            outputPath = filepath_Join [outputDir, relPath]
        in
        case copyFile e inputPath outputPath w of
          (Some err, w) \<Rightarrow>
            hashFiles e binaryPath jobID gcdPath outputDir n relPaths (Suc i) rest
              (results @ [errorResult relPath (''Failed to copy file: '' @ err)])
              successCount st w
        | (None, w) \<Rightarrow>
            (case HashDiffs e binaryPath gcdPath outputPath w of
               (Some err, w) \<Rightarrow>
                 hashFiles e binaryPath jobID gcdPath outputDir n relPaths (Suc i) rest
                   (results @ [errorResult relPath (''Hashing failed: '' @ err)])
                   successCount st w
             | (None, w) \<Rightarrow>
                 hashFiles e binaryPath jobID gcdPath outputDir n relPaths (Suc i) rest
                   (results @ [successResult relPath])
                   (Suc successCount)
                   (UpdateProgress jobID (progressPct e (Suc i) n) st) w)
      else None)"

text \<open>
  The two \<open>UpdateWithOperation\<close> calls have the status \<open>running\<close> and do not
  read the clock; the time passed to them is not used.
\<close>

definition processHashJob ::
  "env \<Rightarrow> string \<Rightarrow> string \<Rightarrow> string list \<Rightarrow> string list \<Rightarrow> string \<Rightarrow> string \<Rightarrow> System \<Rightarrow> io
     \<Rightarrow> (System \<times> io) option" where
  "processHashJob e jobID version qmdFiles relPaths inputDir outputDir sys w =
     (let st = UpdateWithOperation 0 jobID ''running'' ''Getting GCD hashtab'' None ''preparing''
                 (jobStore sys)
      in
      case GetGCDHashtab e version (hashtabService sys) (gcdCache sys) w of
        (Inl err, h, g, w) \<Rightarrow>
          let (now, w) = time_Now e w;
              st = Update now jobID ''error''
                     (''Version '' @ version @ '' not available: '' @ err) None st
          in Some (sys\<lparr>hashtabService := h, gcdCache := g, jobStore := st\<rparr>, w)
      | (Inr gcdPath, h, g, w) \<Rightarrow>
          let st = UpdateWithOperation 0 jobID ''running'' ''Hashing files'' None ''hashing'' st
          in
          case hashFiles e (qmldiffService sys) jobID gcdPath outputDir (length qmdFiles)
                 relPaths 0 qmdFiles [] 0 st w of
            None \<Rightarrow> None
          | Some (results, successCount, st, w) \<Rightarrow>
              let st = SetFiles jobID results st;
                  (now, w) = time_Now e w;
                  st = (if successCount = 0
                        then Update now jobID ''error'' ''All files failed to hash'' None st
                        else Update now jobID ''success''
                               (''Hashed '' @ itoa successCount @ '' file(s)'') None st)
              in Some (sys\<lparr>hashtabService := h, gcdCache := g, jobStore := st\<rparr>, w))"

text \<open>A command of the log that is a successful \<open>hash-diffs\<close> run.\<close>

definition hashedOK :: "string list \<times> bool \<Rightarrow> bool" where
  "hashedOK c = (case c of (argv, ok) \<Rightarrow> ok \<and> take 1 (drop 1 argv) = [''hash-diffs''])"

text \<open>A command of the log that is a \<open>gcd-hashtab\<close> run (an external merge).\<close>

definition isMerge :: "string list \<times> bool \<Rightarrow> bool" where
  "isMerge c = (case c of (argv, ok) \<Rightarrow> take 1 (drop 1 argv) = [''gcd-hashtab''])"

section \<open>Notions used in the statements\<close>

text \<open>A file result that reports success; a file result as the task writes them.\<close>

definition succeeded :: "FileResult \<Rightarrow> bool" where
  "succeeded r \<longleftrightarrow> fr_Status r = ''success''"

definition wellFormedResult :: "FileResult \<Rightarrow> bool" where
  "wellFormedResult r \<longleftrightarrow>
     fr_Status r = ''success'' \<or> (fr_Status r = ''error'' \<and> fr_Error r \<noteq> [])"

text \<open>
  One file of a batch has been handled, starting at position \<open>k\<close> of the run and
  ending at position \<open>k'\<close>, with the result \<open>r\<close> and the commands \<open>c\<close>: the file
  has been copied to its place under the output directory; if the copy failed, the
  result is that error and no command has been run; otherwise \<open>hash-diffs\<close> has
  been run on the copy, once, and the result is success or the error of that
  command.
\<close>

definition handled ::
  "env \<Rightarrow> string \<Rightarrow> string \<Rightarrow> string \<Rightarrow> string \<Rightarrow> string \<Rightarrow> nat \<Rightarrow> nat \<Rightarrow> FileResult
     \<Rightarrow> (string list \<times> bool) list \<Rightarrow> bool" where
  "handled e binaryPath gcdPath outputDir inputPath relPath k k' r c \<longleftrightarrow>
     (case copyResult e k inputPath (filepath_Join [outputDir, relPath]) of
        Some err \<Rightarrow>
          r = errorResult relPath (''Failed to copy file: '' @ err) \<and> c = [] \<and> k' = k + 1
      | None \<Rightarrow>
          (case exec e (k + 1)
                  [binaryPath, ''hash-diffs'', gcdPath, filepath_Join [outputDir, relPath]] of
             None \<Rightarrow>
               r = successResult relPath
               \<and> c = [([binaryPath, ''hash-diffs'', gcdPath, filepath_Join [outputDir, relPath]],
                        True)]
               \<and> k' = k + 2
           | Some (err, stderr, stdout) \<Rightarrow>
               r = errorResult relPath
                     (''Hashing failed: hash-diffs failed: '' @ err @ newline @ ''stderr: ''
                      @ stderr @ newline @ ''stdout: '' @ stdout)
               \<and> c = [([binaryPath, ''hash-diffs'', gcdPath, filepath_Join [outputDir, relPath]],
                        False)]
               \<and> k' = k + 2))"

text \<open>
  The command line of the external merge for a version: the binary, the
  subcommand, the output path \<open>gcdDir/version.gcd\<close> and the source paths in the
  registry's order.
\<close>

definition mergeArgv :: "GService \<Rightarrow> string \<Rightarrow> Hashtab list \<Rightarrow> string list" where
  "mergeArgv s version hashtabs =
     qmldiffBinary s # ''gcd-hashtab'' # filepath_Join [gcdDir s, version @ ''.gcd'']
       # map ht_Path hashtabs"

text \<open>
  A cache entry is stale, as \<open>GetGCDHashtab\<close> decides it when the registry has
  not reloaded: there is no entry; or its device count is not the number of sources
  the registry now has for the version; or one of these sources can be stat'ed (the
  \<open>i\<close>-th is stat'ed at position \<open>step w + i\<close>) and its modification time is
  not the one the snapshot records for its path, or the snapshot records none.
\<close>

definition staleEntry :: "env \<Rightarrow> string \<Rightarrow> HService \<Rightarrow> GService \<Rightarrow> io \<Rightarrow> bool" where
  "staleEntry e version h s w \<longleftrightarrow>
     (case gcdHashtabs s version of
        None \<Rightarrow> True
      | Some g \<Rightarrow>
          int (length (GetHashtabsForVersion h version)) \<noteq> gcd_DeviceCount g
          \<or> (\<exists>i < length (GetHashtabsForVersion h version).
                case osStat e (step w + i) (ht_Path (GetHashtabsForVersion h version ! i)) of
                  None \<Rightarrow> False
                | Some t \<Rightarrow>
                    (case sourceModTimes s version of None \<Rightarrow> Map.empty | Some m \<Rightarrow> m)
                      (ht_Path (GetHashtabsForVersion h version ! i)) \<noteq> Some t))"

text \<open>
  The snapshot that \<open>generateGCD\<close> takes of the sources \<open>hts\<close> when it stats
  them in order, the \<open>i\<close>-th at position \<open>k + i\<close>: a path is recorded if and only
  if the stat of some source with that path has succeeded, and the recorded time
  is the one that the last such stat has given.
\<close>

definition snapshotOf :: "env \<Rightarrow> nat \<Rightarrow> Hashtab list \<Rightarrow> (string \<rightharpoonup> time) \<Rightarrow> bool" where
  "snapshotOf e k hts mods \<longleftrightarrow>
     (\<forall>p t. mods p = Some t \<longleftrightarrow>
        (\<exists>i < length hts. ht_Path (hts ! i) = p \<and> osStat e (k + i) p = Some t
           \<and> (\<forall>j < length hts. i < j \<and> ht_Path (hts ! j) = p \<longrightarrow> osStat e (k + j) p = None)))"

text \<open>
  The cache \<open>s'\<close> holds for the version what a generation that started at
  position \<open>k\<close> from the registry \<open>h\<close> installs: an entry whose device count is
  the number of sources, and a snapshot. For one source the snapshot records the
  time of the clock (its second reading) for the path of that source; for two or
  more it is the snapshot of the sources, stat'ed after the command and one
  reading of the clock.
\<close>

definition snapshotUpdated :: "env \<Rightarrow> string \<Rightarrow> HService \<Rightarrow> nat \<Rightarrow> GService \<Rightarrow> bool" where
  "snapshotUpdated e version h k s' \<longleftrightarrow>
     map_option gcd_DeviceCount (gcdHashtabs s' version)
       = Some (int (length (GetHashtabsForVersion h version)))
     \<and> (case sourceModTimes s' version of
          None \<Rightarrow> False
        | Some mods \<Rightarrow>
            if length (GetHashtabsForVersion h version) = 1
            then mods = [ht_Path (GetHashtabsForVersion h version ! 0) \<mapsto> clock e (Suc k)]
            else snapshotOf e (k + 2) (GetHashtabsForVersion h version) mods)"

text \<open>
  Used in the proofs: the time that the last successful stat of a source with
  path \<open>p\<close> gives.
\<close>

fun lastStat :: "env \<Rightarrow> nat \<Rightarrow> Hashtab list \<Rightarrow> string \<Rightarrow> time option" where
  "lastStat e k [] p = None"
| "lastStat e k (ht # hts) p =
     (case lastStat e (Suc k) hts p of
        Some t \<Rightarrow> Some t
      | None \<Rightarrow> if ht_Path ht = p then osStat e k p else None)"

text \<open>Two requests for the same version, one after the other.\<close>

definition twoRequests ::
  "env \<Rightarrow> string \<Rightarrow> HService \<Rightarrow> GService \<Rightarrow> io
     \<Rightarrow> (string + string) \<times> (string + string) \<times> (string list \<times> bool) list" where
  "twoRequests e version h s w =
     (case GetGCDHashtab e version h s w of
        (r1, h1, s1, w1) \<Rightarrow>
          (case GetGCDHashtab e version h1 s1 w1 of
             (r2, h2, s2, w2) \<Rightarrow> (r1, r2, cmds w2)))"

section \<open>Example inputs\<close>

text \<open>
  A directory \<open>ht\<close> with the artifacts of two devices of version \<open>3.25\<close>, and the
  same directory with one more file that does not parse.
\<close>

definition exV :: string where
  "exV = ''3.25''"

definition htA :: Hashtab where
  "htA = \<lparr>ht_Name = ''a'', ht_Path = ''ht/a'', ht_OSVersion = ''3.25'', ht_Device = ''rm1''\<rparr>"

definition htB :: Hashtab where
  "htB = \<lparr>ht_Name = ''b'', ht_Path = ''ht/b'', ht_OSVersion = ''3.25'', ht_Device = ''rm2''\<rparr>"

definition exWalk :: "walk_event list" where
  "exWalk = [Entry ''ht'' True (Some 9) None,
             Entry ''ht/a'' False (Some 1) (Some htA),
             Entry ''ht/b'' False (Some 2) (Some htB)]"

definition exWalkJunk :: "walk_event list" where
  "exWalkJunk = exWalk @ [Entry ''ht/junk'' False (Some 3) None]"

definition exStat :: "string \<Rightarrow> time option" where
  "exStat path = (if path = ''ht/a'' then Some 1 else if path = ''ht/b'' then Some 2 else None)"

text \<open>
  The clock advances by ten seconds at every reading, the file system does
  not change, and every command succeeds.
\<close>

definition exEnv :: env where
  "exEnv = \<lparr>clock = (\<lambda>k. 10 * Second * int k),
            walkDir = (\<lambda>k root. exWalk),
            osStat = (\<lambda>k. exStat),
            exec = (\<lambda>k argv. None),
            copyResult = (\<lambda>k src dst. None),
            progressPct = (\<lambda>i n. int (100 * i div n))\<rparr>"

definition exEnvJunk :: env where
  "exEnvJunk = exEnv\<lparr>walkDir := (\<lambda>k root. exWalkJunk)\<rparr>"

text \<open>The same, with every command failing.\<close>

definition exEnvFail :: env where
  "exEnvFail = exEnv\<lparr>exec := (\<lambda>k argv. Some (''exit status 1'', ''boom'', []))\<rparr>"

definition io0 :: io where
  "io0 = \<lparr>step = 0, cmds = []\<rparr>"

text \<open>The registry as \<open>NewService\<close> builds it from either directory.\<close>

definition exRegistry :: HService where
  "exRegistry = \<lparr>hashtables = [htA, htB], dir = ''ht'',
     modTimes = [(''ht/a'', 1), (''ht/b'', 2)],
     pathByName = [''a'' \<mapsto> ''ht/a'', ''b'' \<mapsto> ''ht/b''],
     byVersion = [''3.25'' \<mapsto> [htA, htB]],
     lastReloadCheck = zeroTime\<rparr>"

definition exRegistryOne :: HService where
  "exRegistryOne = \<lparr>hashtables = [htA], dir = ''ht'',
     modTimes = [(''ht/a'', 1)],
     pathByName = [''a'' \<mapsto> ''ht/a''],
     byVersion = [''3.25'' \<mapsto> [htA]],
     lastReloadCheck = zeroTime\<rparr>"

definition exCache :: GService where
  "exCache = \<lparr>gcdDir = ''gcd'', qmldiffBinary = ''qmldiff'', gcdHashtabs = Map.empty,
     sourceModTimes = Map.empty\<rparr>"

text \<open>
  A cache that holds the merged artifact of version \<open>3.25\<close>, made from \<open>ht/a\<close>
  and \<open>ht/b\<close>.
\<close>

definition exSnapshot :: "string \<rightharpoonup> time" where
  "exSnapshot = [''ht/a'' \<mapsto> 1, ''ht/b'' \<mapsto> 2]"

definition exCacheFull :: GService where
  "exCacheFull = exCache\<lparr>
     gcdHashtabs := [''3.25'' \<mapsto> \<lparr>gcd_Version = ''3.25'', gcd_Path = ''gcd/3.25.gcd'',
                       gcd_SourceModTime = 70 * Second, gcd_DeviceCount = 2\<rparr>],
     sourceModTimes := [''3.25'' \<mapsto> exSnapshot]\<rparr>"

text \<open>
  The directory after a file \<open>ht/0/b\<close> for the same version and device as \<open>ht/b\<close>
  has been added: the walk meets it first, and \<open>ht/b\<close>, which has the same base
  name, is skipped as a duplicate. The clock of \<open>exEnvShadow\<close> advances by one
  second at every reading. \<open>exRegistryShadow\<close> is the registry after the reload
  that a request for another version has caused at second 199, while the cache
  entry of version \<open>3.25\<close> is still that of \<open>exCacheFull\<close>; \<open>io22\<close> is the moment
  after that request.
\<close>

definition htB0 :: Hashtab where
  "htB0 = \<lparr>ht_Name = ''b'', ht_Path = ''ht/0/b'', ht_OSVersion = ''3.25'', ht_Device = ''rm2''\<rparr>"

definition exWalkShadow :: "walk_event list" where
  "exWalkShadow = [Entry ''ht'' True (Some 9) None,
                   Entry ''ht/0'' True (Some 9) None,
                   Entry ''ht/0/b'' False (Some 3) (Some htB0),
                   Entry ''ht/a'' False (Some 1) (Some htA),
                   Entry ''ht/b'' False (Some 2) (Some htB)]"

definition exStatShadow :: "string \<Rightarrow> time option" where
  "exStatShadow path = (if path = ''ht/0/b'' then Some 3 else exStat path)"

definition exEnvShadow :: env where
  "exEnvShadow = exEnv\<lparr>clock := (\<lambda>k. (180 + int k) * Second),
                         walkDir := (\<lambda>k root. exWalkShadow),
                         osStat := (\<lambda>k. exStatShadow)\<rparr>"

definition exRegistryShadow :: HService where
  "exRegistryShadow = \<lparr>hashtables = [htB0, htA], dir = ''ht'',
     modTimes = [(''ht/0/b'', 3), (''ht/a'', 1)],
     pathByName = [''b'' \<mapsto> ''ht/0/b'', ''a'' \<mapsto> ''ht/a''],
     byVersion = [''3.25'' \<mapsto> [htB0, htA]],
     lastReloadCheck = 199 * Second\<rparr>"

definition io22 :: io where
  "io22 = \<lparr>step = 22, cmds = []\<rparr>"

text \<open>
  A third artifact \<open>ht/c\<close> of version \<open>3.25\<close> is added to the directory when
  the run is at position 23; the clock advances by one second at every reading.
\<close>

definition htC :: Hashtab where
  "htC = \<lparr>ht_Name = ''c'', ht_Path = ''ht/c'', ht_OSVersion = ''3.25'', ht_Device = ''rmpp''\<rparr>"

definition exWalkAdded :: "walk_event list" where
  "exWalkAdded = exWalk @ [Entry ''ht/c'' False (Some 6) (Some htC)]"

definition exEnvAdded :: env where
  "exEnvAdded = exEnv\<lparr>clock := (\<lambda>k. (180 + int k) * Second),
                        walkDir := (\<lambda>k root. if k < 23 then exWalk else exWalkAdded),
                        osStat := (\<lambda>k path. if 23 \<le> k \<and> path = ''ht/c'' then Some 6
                                              else exStat path)\<rparr>"

text \<open>
  An artifact \<open>ht/x\<close> of another version has been added to the directory, and
  every command fails; the clock advances by one second at every reading.
\<close>

definition htX :: Hashtab where
  "htX = \<lparr>ht_Name = ''x'', ht_Path = ''ht/x'', ht_OSVersion = ''9.99'', ht_Device = ''rm1''\<rparr>"

definition exWalkOther :: "walk_event list" where
  "exWalkOther = exWalk @ [Entry ''ht/x'' False (Some 4) (Some htX)]"

definition exEnvOtherFail :: env where
  "exEnvOtherFail = exEnv\<lparr>clock := (\<lambda>k. (180 + int k) * Second),
                            walkDir := (\<lambda>k root. exWalkOther),
                            exec := (\<lambda>k argv. Some (''exit status 1'', ''boom'', []))\<rparr>"

text \<open>The registry some time after its last check, and a moment of the run.\<close>

definition exRegistryChecked :: HService where
  "exRegistryChecked = exRegistry\<lparr>lastReloadCheck := 100 * Second\<rparr>"

definition io18 :: io where
  "io18 = \<lparr>step = 18, cmds = []\<rparr>"

text \<open>
  The directory after \<open>ht/b\<close> has been touched (time 5), read without error by
  the first walk of a call and with an error after \<open>ht/a\<close> by the second.
\<close>

definition exWalkTouched :: "walk_event list" where
  "exWalkTouched = [Entry ''ht'' True (Some 9) None,
                    Entry ''ht/a'' False (Some 1) (Some htA),
                    Entry ''ht/b'' False (Some 5) (Some htB)]"

definition exWalkBroken :: "walk_event list" where
  "exWalkBroken = [Entry ''ht'' True (Some 9) None,
                   Entry ''ht/a'' False (Some 1) (Some htA),
                   WalkErr ''input/output error'']"

definition exEnvBroken :: env where
  "exEnvBroken = exEnv\<lparr>walkDir := (\<lambda>k root. if k < 3 then exWalkTouched else exWalkBroken)\<rparr>"

text \<open>
  A batch of two files for version \<open>3.25\<close>, submitted as job \<open>j1\<close>; the engine
  fails on the second file.
\<close>

definition exEnvSecondFails :: env where
  "exEnvSecondFails = exEnv\<lparr>exec := (\<lambda>k argv.
     if argv = [''qmldiff'', ''hash-diffs'', ''gcd/3.25.gcd'', ''/tmp/out/b.qmd'']
     then Some (''exit status 1'', ''bad diff'', []) else None)\<rparr>"

definition exSystem :: System where
  "exSystem = \<lparr>hashtabService = exRegistry, gcdCache = exCache, qmldiffService = ''qmldiff'',
     jobStore = submitJob ''j1'' [''/tmp/in/a.qmd'', ''/tmp/in/b.qmd''] ''/tmp/out'' NewStore\<rparr>"

text \<open>
  A store with two jobs that finished at time 0. The second has a subscriber,
  channel 0, with the snapshot it was sent at subscription in the buffer.
\<close>

definition exDone :: Job where
  "exDone = \<lparr>Status = ''success'', Message = ''Hashed 1 file(s)'', Data = None, Progress = 100,
     Operation = ''hashing'', Files = [successResult ''a.qmd''], OutputDir = ''/tmp/out'',
     FileCount = 1, CompletedAt = Some 0\<rparr>"

definition exStore :: Store where
  "exStore = \<lparr>jobs = [''j1'' \<mapsto> 0, ''j2'' \<mapsto> 1],
     watchers = [''j1'' \<mapsto> [], ''j2'' \<mapsto> [0]],
     heap = (\<lambda>j. exDone),
     chans = (\<lambda>c. if c = 0 then [copyJob exDone] else []),
     next_job = 2, next_chan = 1\<rparr>"

text \<open>A store with one pending job, and two snapshots of that job.\<close>

definition exJobStore :: Store where
  "exJobStore = snd (Create ''j1'' NewStore)"

definition exPending :: Job where
  "exPending = \<lparr>Status = ''pending'', Message = ''Job created'', Data = Some Map.empty,
     Progress = 0, Operation = [], Files = [], OutputDir = [], FileCount = 0,
     CompletedAt = None\<rparr>"

definition exRunning :: Job where
  "exRunning = \<lparr>Status = ''running'', Message = ''Hashing files'', Data = Some Map.empty,
     Progress = 0, Operation = ''hashing'', Files = [], OutputDir = [], FileCount = 0,
     CompletedAt = None\<rparr>"

section \<open>Properties of the job store\<close>

lemma broadcastLocked_frame [simp]:
  "jobs (broadcastLocked jid s) = jobs s"
  "watchers (broadcastLocked jid s) = watchers s"
  "heap (broadcastLocked jid s) = heap s"
  "next_job (broadcastLocked jid s) = next_job s"
  "next_chan (broadcastLocked jid s) = next_chan s"
  by (simp_all add: broadcastLocked_def split: option.splits)

lemma mutate_jobs [simp]: "jobs (mutate m s) = jobs s"
  by (cases m)
     (simp_all add: Update_def UpdateProgress_def UpdateWithOperation_def SetOutputDir_def
        SetFiles_def AddFile_def Let_def split: option.splits)

lemma mutate_CompletedAt:
  "CompletedAt (heap (mutate m s) j) =
     (case CompletedAt (heap s j) of
        Some t \<Rightarrow> Some t
      | None \<Rightarrow> firstTerminal (jobs s) j [m])"
  by (cases m)
     (auto simp: Update_def UpdateProgress_def UpdateWithOperation_def SetOutputDir_def
        SetFiles_def AddFile_def Let_def split: option.splits)

lemma firstTerminal_Cons:
  "firstTerminal tab j (m # ms) =
     (case firstTerminal tab j [m] of Some t \<Rightarrow> Some t | None \<Rightarrow> firstTerminal tab j ms)"
  by (cases m) simp_all

text \<open>
  C9. The completion timestamp of a job object is stamped once, by the first update
  with a terminal status: after any sequence of mutator calls (on any ids), an
  object that already carried a timestamp carries the same one, and an object that
  carried none carries the time of the first terminal \<open>Update\<close> or
  \<open>UpdateWithOperation\<close> addressed to it (none if there was no such call). Later
  calls, terminal or not, do not change it.
\<close>

theorem completedAt_stamped_once:
  "CompletedAt (heap (mutateAll ms s) j) =
     (case CompletedAt (heap s j) of
        Some t \<Rightarrow> Some t
      | None \<Rightarrow> firstTerminal (jobs s) j ms)"
proof (induction ms arbitrary: s)
  case Nil
  show ?case by (simp split: option.splits)
next
  case (Cons m ms)
  have "CompletedAt (heap (mutateAll (m # ms) s) j) =
          (case CompletedAt (heap (mutate m s) j) of
             Some t \<Rightarrow> Some t
           | None \<Rightarrow> firstTerminal (jobs s) j ms)"
    using Cons.IH [of "mutate m s"] unfolding mutate_jobs by simp
  also have "\<dots> = (case CompletedAt (heap s j) of
                     Some t \<Rightarrow> Some t
                   | None \<Rightarrow> firstTerminal (jobs s) j (m # ms))"
    using firstTerminal_Cons [of "jobs s" j m ms]
    by (simp add: mutate_CompletedAt split: option.splits)
  finally show ?case .
qed

text \<open>
  C10. Each of the six mutators, called with an id that is not in the job table,
  returns the store as it was: the table, the job objects, the watcher lists and
  the content of every channel are unchanged, so nothing has been broadcast.
\<close>

theorem mutators_unknown_id_noop:
  assumes "jobs s jid = None"
  shows "Update now jid status message data s = s
       \<and> UpdateProgress jid p s = s
       \<and> UpdateWithOperation now jid status message data operation s = s
       \<and> SetOutputDir jid outputDir s = s
       \<and> SetFiles jid files s = s
       \<and> AddFile jid file s = s"
  using assms
  by (simp add: Update_def UpdateProgress_def UpdateWithOperation_def SetOutputDir_def
      SetFiles_def AddFile_def Let_def)

theorem mutators_unknown_id_noop_witness:
  "jobs NewStore ''j1'' = None
   \<and> Update 5 ''j1'' ''success'' ''done'' None NewStore = NewStore
   \<and> UpdateProgress ''j1'' 50 NewStore = NewStore
   \<and> UpdateWithOperation 5 ''j1'' ''running'' ''m'' None ''hashing'' NewStore = NewStore
   \<and> SetOutputDir ''j1'' ''/tmp/out'' NewStore = NewStore
   \<and> SetFiles ''j1'' [] NewStore = NewStore
   \<and> AddFile ''j1'' \<lparr>fr_Name = ''a'', fr_Path = ''a'', fr_Status = ''success'', fr_Error = []\<rparr>
        NewStore = NewStore"
proof -
  have h: "jobs NewStore ''j1'' = None" by (simp add: NewStore_def)
  show ?thesis
    using h mutators_unknown_id_noop [OF h] by simp
qed

subsection \<open>The sweep\<close>

lemma sweepStep_heap [simp]: "heap (sweepStep now k s) = heap s"
  by (simp add: sweepStep_def split: option.splits)

lemma sweepStep_jobs:
  "jobs (sweepStep now k s) jid = (if jid = k \<and> removable now s k then None else jobs s jid)"
  by (auto simp: sweepStep_def removable_def split: option.splits)

lemma sweepStep_watchers:
  "watchers (sweepStep now k s) jid =
     (if jid = k \<and> removable now s k then None else watchers s jid)"
  by (auto simp: sweepStep_def removable_def split: option.splits)

lemma sweepStep_removable:
  "removable now (sweepStep now k s) jid \<longleftrightarrow> jid \<noteq> k \<and> removable now s jid"
  by (auto simp: removable_def watchersOf_def sweepStep_jobs sweepStep_watchers
      split: option.splits)

lemma fold_sweepStep:
  "jobs (fold (sweepStep now) keys s) jid =
     (if jid \<in> set keys \<and> removable now s jid then None else jobs s jid)
   \<and> heap (fold (sweepStep now) keys s) = heap s
   \<and> watchers (fold (sweepStep now) keys s) jid =
     (if jid \<in> set keys \<and> removable now s jid then None else watchers s jid)"
proof (induction keys arbitrary: s)
  case Nil
  show ?case by simp
next
  case (Cons k keys)
  show ?case
    using Cons.IH [of "sweepStep now k s"]
    by (auto simp: sweepStep_jobs sweepStep_watchers sweepStep_removable)
qed

text \<open>
  C7. Whatever the order \<open>keys\<close> in which the sweep ranges over the job table, a
  job that was in the table is gone afterwards if and only if its completion
  timestamp is set, is more than ten minutes before \<open>now\<close>, and its watcher list
  is empty. A job that stays keeps its object, and a job with at least one
  subscriber stays, with its watcher list, whatever its age.
\<close>

theorem sweep_removes_iff:
  assumes "set keys = dom (jobs s)"
  shows "(jobs (cleanupOldJobs now keys s) jid = None \<longleftrightarrow>
            jobs s jid = None \<or>
            (\<exists>j t. jobs s jid = Some j \<and> CompletedAt (heap s j) = Some t \<and> now - t > 10 * Minute
                   \<and> length (watchersOf s jid) = 0))
       \<and> (jobs (cleanupOldJobs now keys s) jid = None \<or>
            jobs (cleanupOldJobs now keys s) jid = jobs s jid)
       \<and> (length (watchersOf s jid) \<noteq> 0 \<longrightarrow>
            jobs (cleanupOldJobs now keys s) jid = jobs s jid
            \<and> watchers (cleanupOldJobs now keys s) jid = watchers s jid)"
  using assms fold_sweepStep [of now keys s jid]
  by (auto simp: cleanupOldJobs_def removable_def ttl_def split: option.splits)

lemmas store_defs = NewStore_def Create_def Update_def UpdateProgress_def
  UpdateWithOperation_def SetOutputDir_def SetFiles_def AddFile_def broadcastLocked_def
  watchersOf_def copyJob_def trySend_def terminal_def zeroJob_def chanCap_def Subscribe_def
  Subscribe_locked_def Subscribe_copy_def Subscribe_send_def Subscribe_during_def

theorem sweep_removes_iff_witness:
  "set [''j1'', ''j2''] = dom (jobs exStore)
   \<and> jobs exStore ''j1'' = Some 0
   \<and> jobs (cleanupOldJobs (11 * Minute) [''j1'', ''j2''] exStore) ''j1'' = None
   \<and> length (watchersOf exStore ''j2'') \<noteq> 0
   \<and> jobs (cleanupOldJobs (11 * Minute) [''j1'', ''j2''] exStore) ''j2'' = Some 1"
proof -
  have h: "set [''j1'', ''j2''] = dom (jobs exStore)"
    by (auto simp: exStore_def)
  have j1: "jobs exStore ''j1'' = Some 0" and j2: "jobs exStore ''j2'' = Some 1"
    and t1: "CompletedAt (heap exStore 0) = Some 0"
    and w1: "watchersOf exStore ''j1'' = []" and w2: "watchersOf exStore ''j2'' = [0]"
    by (simp_all add: exStore_def exDone_def watchersOf_def)
  show ?thesis
    using h j1 j2 t1 w1 w2
      sweep_removes_iff [OF h, of "11 * Minute" "''j1''"]
      sweep_removes_iff [OF h, of "11 * Minute" "''j2''"]
    by (simp add: Minute_def Second_def)
qed

subsection \<open>Delivery to a subscriber\<close>

lemma trySend_same:
  "trySend v cs ch ch = (if length (cs ch) < chanCap then cs ch @ [v] else cs ch)"
  by (simp add: trySend_def)

lemma trySend_other: "c \<noteq> ch \<Longrightarrow> trySend v cs c ch = cs ch"
  by (simp add: trySend_def)

lemma foldl_trySend_notin:
  "ch \<notin> set ws \<Longrightarrow> foldl (trySend v) cs ws ch = cs ch"
  by (induction ws arbitrary: cs) (auto simp: trySend_def)

lemma foldl_trySend_once:
  "count_list ws ch = 1 \<Longrightarrow>
   foldl (trySend v) cs ws ch = (if length (cs ch) < chanCap then cs ch @ [v] else cs ch)"
proof (induction ws arbitrary: cs)
  case Nil
  then show ?case by simp
next
  case (Cons w ws)
  show ?case
  proof (cases "w = ch")
    case True
    with Cons.prems have "count_list ws ch = 0" by simp
    then have "ch \<notin> set ws" by (simp add: count_list_0_iff)
    then have "foldl (trySend v) (trySend v cs ch) ws ch = trySend v cs ch ch"
      by (rule foldl_trySend_notin)
    then show ?thesis using True by (simp add: trySend_same)
  next
    case False
    with Cons.prems have "count_list ws ch = 1" by simp
    from Cons.IH [OF this, of "trySend v cs w"] False show ?thesis
      by (simp add: trySend_other)
  qed
qed

lemma broadcastLocked_chan:
  assumes "subscribed ch jid s"
  shows "chans (broadcastLocked k s) ch =
     (if k = jid \<and> jobs s jid \<noteq> None \<and> length (chans s ch) < chanCap
      then chans s ch @ [copyJob (heap s (the (jobs s jid)))] else chans s ch)"
proof (cases "k = jid")
  case True
  then show ?thesis
    using assms
    by (simp add: broadcastLocked_def subscribed_def foldl_trySend_once split: option.splits)
next
  case False
  with assms have "ch \<notin> set (watchersOf s k)" by (simp add: subscribed_def)
  then show ?thesis
    using False by (simp add: broadcastLocked_def foldl_trySend_notin split: option.splits)
qed

lemma watchersOf_heap_upd [simp]: "watchersOf (s\<lparr>heap := h\<rparr>) = watchersOf s"
  by (simp add: watchersOf_def fun_eq_iff)

lemma subscribed_heap_upd [simp]: "subscribed ch jid (s\<lparr>heap := h\<rparr>) = subscribed ch jid s"
  by (simp add: subscribed_def)

lemma mutate_watchers [simp]: "watchers (mutate m s) = watchers s"
  by (cases m)
     (simp_all add: Update_def UpdateProgress_def UpdateWithOperation_def SetOutputDir_def
        SetFiles_def AddFile_def Let_def split: option.splits)

lemma mutate_chan:
  assumes "subscribed ch jid s"
  shows "chans (mutate m s) ch =
     (if broadcasts m \<and> mutation_id m = jid \<and> jobs s jid \<noteq> None
         \<and> length (chans s ch) < chanCap
      then chans s ch @ [copyJob (heap (mutate m s) (the (jobs s jid)))] else chans s ch)"
  using assms
  by (cases m)
     (auto simp: Update_def UpdateProgress_def UpdateWithOperation_def SetOutputDir_def
        SetFiles_def AddFile_def Let_def broadcastLocked_chan split: option.splits)

lemma subscribed_step: "subscribed ch jid (step_event e s) = subscribed ch jid s"
  by (cases e) (simp_all add: subscribed_def watchersOf_def)

lemma delivery_in_order:
  "subscribed ch jid s \<Longrightarrow> neverFull ch es s \<Longrightarrow>
   received ch es s @ chans (run_events es s) ch = chans s ch @ snapshots jid es s"
proof (induction es arbitrary: s)
  case Nil
  show ?case by simp
next
  case (Cons e es)
  have sub': "subscribed ch jid (step_event e s)"
    using Cons.prems(1) by (simp add: subscribed_step)
  show ?case
  proof (cases e)
    case (EMut m)
    with Cons.prems have room: "length (chans s ch) < chanCap"
      and nf: "neverFull ch es (mutate m s)"
      by simp_all
    have "received ch es (mutate m s) @ chans (run_events es (mutate m s)) ch
            = chans (mutate m s) ch @ snapshots jid es (mutate m s)"
      using Cons.IH [of "mutate m s"] sub' nf EMut by simp
    then show ?thesis
      using EMut room mutate_chan [OF Cons.prems(1), of m]
      by (auto split: option.splits)
  next
    case (ERecv c)
    with Cons.prems have nf: "neverFull ch es (step_event e s)" by simp
    have ih: "received ch es (step_event e s) @ chans (run_events es (step_event e s)) ch
            = chans (step_event e s) ch @ snapshots jid es (step_event e s)"
      using Cons.IH [OF sub' nf] .
    show ?thesis
    proof (cases "c = ch")
      case True
      then show ?thesis using ih ERecv
        by (cases "chans s ch") simp_all
    next
      case False
      then show ?thesis using ih ERecv by simp
    qed
  qed
qed

text \<open>
  The allocation invariant holds of the new store and is kept by every operation
  modelled here.
\<close>

lemma chans_allocated_NewStore: "chans_allocated NewStore"
  by (simp add: chans_allocated_def NewStore_def)

lemma chans_allocated_Create: "chans_allocated s \<Longrightarrow> chans_allocated (snd (Create jid s))"
  by (auto simp: chans_allocated_def Create_def Let_def)

lemma mutate_next_chan [simp]: "next_chan (mutate m s) = next_chan s"
  by (cases m)
     (simp_all add: Update_def UpdateProgress_def UpdateWithOperation_def SetOutputDir_def
        SetFiles_def AddFile_def Let_def split: option.splits)

lemma chans_allocated_mutate: "chans_allocated s \<Longrightarrow> chans_allocated (mutate m s)"
  by (simp add: chans_allocated_def)

lemma chans_allocated_Subscribe:
  assumes "chans_allocated s" and "Subscribe jid s = Some (ch, s')"
  shows "chans_allocated s'"
proof -
  have "watchers s' = (watchers s)(jid \<mapsto> watchersOf s jid @ [next_chan s])"
    and "next_chan s' = Suc (next_chan s)"
    using assms(2)
    by (auto simp: Subscribe_def Subscribe_locked_def Subscribe_copy_def Subscribe_send_def
        Let_def split: option.splits if_splits)
  then show ?thesis
    using assms(1)
    by (auto simp: chans_allocated_def watchersOf_def less_Suc_eq split: option.splits)
qed

lemma next_chan_fresh:
  assumes "chans_allocated s"
  shows "next_chan s \<notin> set (watchersOf s k)"
proof (cases "watchers s k")
  case None
  then show ?thesis by (simp add: watchersOf_def)
next
  case (Some cs)
  with assms have "\<forall>c \<in> set cs. c < next_chan s" by (simp add: chans_allocated_def)
  then show ?thesis using Some by (auto simp: watchersOf_def)
qed

lemma Subscribe_subscribed:
  assumes "chans_allocated s"
  shows "subscribed (next_chan s) jid (snd (Subscribe_locked jid s))"
proof -
  have w: "watchersOf (snd (Subscribe_locked jid s)) k =
             (if k = jid then watchersOf s jid @ [next_chan s] else watchersOf s k)" for k
    by (simp add: Subscribe_locked_def Let_def watchersOf_def)
  show ?thesis
    using next_chan_fresh [OF assms]
    by (simp add: subscribed_def w count_list_0_iff)
qed

text \<open>
  When no other goroutine runs during the call of \<open>Subscribe\<close>, delivery is as the
  specification describes it: the call does not block, the channel holds one
  snapshot of the job as it is at that moment, and whatever the later mutator
  calls (on any ids) and receives, as long as the buffer has room at every call,
  what the consumer has received followed by what is still buffered is that first
  snapshot followed by one snapshot for each broadcasting call addressed to the
  job, in the order of the calls.
\<close>

lemma subscriber_delivery_sequential:
  assumes "chans_allocated s" and "jobs s jid = Some j"
  shows "\<exists>ch s0. Subscribe jid s = Some (ch, s0)
           \<and> chans s0 ch = [copyJob (heap s j)]
           \<and> (\<forall>es. neverFull ch es s0 \<longrightarrow>
                 received ch es s0 @ chans (run_events es s0) ch
                   = copyJob (heap s j) # snapshots jid es s0)"
proof -
  let ?ch = "next_chan s"
  let ?s1 = "snd (Subscribe_locked jid s)"
  let ?s0 = "?s1\<lparr>chans := (chans ?s1)(?ch := [copyJob (heap s j)])\<rparr>"
  have sub: "Subscribe jid s = Some (?ch, ?s0)"
    using assms(2)
    by (simp add: Subscribe_def Subscribe_locked_def Subscribe_copy_def Subscribe_send_def
        Let_def chanCap_def)
  have "subscribed ?ch jid ?s1"
    using Subscribe_subscribed [OF assms(1), of jid] by simp
  then have s0: "subscribed ?ch jid ?s0" by (simp add: subscribed_def watchersOf_def)
  have "chans ?s0 ?ch = [copyJob (heap s j)]" by simp
  with sub s0 delivery_in_order [of ?ch jid ?s0] show ?thesis by auto
qed

text \<open>
  C6. The first snapshot is copied and sent after \<open>Subscribe\<close> has released the
  lock. When the processing task updates the job in between (here: job \<open>j1\<close> is
  pending, a subscriber registers, the task calls
  \<open>Update(j1, running, Hashing files)\<close>, the subscriber's call goes on), the
  channel holds the snapshot of the running job twice: the snapshot of the job as
  it was when the subscriber registered is never delivered, and the one mutation
  after it is delivered twice.
\<close>

theorem subscribe_overlapping_update:
  "map_option (\<lambda>(ch, s). chans s ch)
     (Subscribe_during ''j1''
        [MUpdateWithOperation 5 ''j1'' ''running'' ''Hashing files'' None ''hashing''] []
        exJobStore)
     = Some [exRunning, exRunning]
   \<and> map_option copyJob (Get ''j1'' exJobStore) = Some exPending
   \<and> exPending \<noteq> exRunning"
  by (simp add: exJobStore_def exPending_def exRunning_def store_defs Get_def Let_def)

text \<open>
  The same subscription and the same update, the update between the copy and the
  send: the broadcast of the update reaches the channel first, and the copy made
  before it is sent after it, so the subscriber sees the running job and then the
  pending one.
\<close>

lemma subscribe_update_after_copy:
  "map_option (\<lambda>(ch, s). chans s ch)
     (Subscribe_during ''j1'' []
        [MUpdateWithOperation 5 ''j1'' ''running'' ''Hashing files'' None ''hashing'']
        exJobStore)
     = Some [exRunning, exPending]"
  by (simp add: exJobStore_def exPending_def exRunning_def store_defs Let_def)

lemma Subscribe_during_Nil: "Subscribe_during jid [] [] s = Subscribe jid s"
  by (simp add: Subscribe_during_def Subscribe_def Let_def)

text \<open>
  The same subscription and the same update, the update after the call of
  \<open>Subscribe\<close> has returned: the pending job, then the running job.
\<close>

lemma subscribe_then_update:
  "map_option (\<lambda>(ch, s).
       chans (mutate (MUpdateWithOperation 5 ''j1'' ''running'' ''Hashing files'' None ''hashing'') s) ch)
     (Subscribe ''j1'' exJobStore)
     = Some [exPending, exRunning]"
  by (simp add: exJobStore_def exPending_def exRunning_def store_defs Let_def)

section \<open>Properties of the registry and the cache\<close>

lemmas ex_defs = exV_def htA_def htB_def exWalk_def exWalkJunk_def exStat_def exEnv_def
  exEnvJunk_def exEnvFail_def io0_def exRegistry_def exRegistryOne_def exCache_def
  exSnapshot_def exCacheFull_def htB0_def exWalkShadow_def exStatShadow_def exEnvShadow_def
  exRegistryShadow_def io22_def exWalkTouched_def exWalkBroken_def exEnvBroken_def
  htC_def exWalkAdded_def exEnvAdded_def htX_def exWalkOther_def exEnvOtherFail_def
  exRegistryChecked_def io18_def

lemmas io_defs = time_Now_def tick_def WalkDir_def os_Stat_def run_command_def copyFile_def

lemmas cache_defs = GetGCDHashtab_def CheckAndReload_def generateGCD_def needsRegen_def
  cachedPath_def runQmldiff_def GetHashtabsForVersion_def filepath_Base_def filepath_Join_def
  filepath_Clean_def zeroTime_def Second_def Let_def

subsection \<open>No command is run outside \<open>generateGCD\<close>\<close>

lemma time_Now_cmds [simp]: "cmds (snd (time_Now e w)) = cmds w"
  by (simp add: time_Now_def tick_def)

lemma os_Stat_cmds [simp]: "cmds (snd (os_Stat e p w)) = cmds w"
  by (simp add: os_Stat_def tick_def)

lemma statSources_cmds [simp]: "cmds (snd (statSources e hts m w)) = cmds w"
proof (induction hts arbitrary: m w)
  case Nil
  show ?case by simp
next
  case (Cons ht hts)
  show ?case
    using Cons.IH os_Stat_cmds [of e "ht_Path ht" w]
    by (auto split: prod.splits option.splits simp del: os_Stat_cmds)
qed

lemma sourcesChanged_cmds [simp]: "cmds (snd (sourcesChanged e hts sm w)) = cmds w"
proof (induction hts arbitrary: w)
  case Nil
  show ?case by simp
next
  case (Cons ht hts)
  show ?case
    using Cons.IH [of "tick w"]
    by (auto simp: os_Stat_def tick_def split: option.splits)
qed

lemma needsRegen_cmds [simp]: "cmds (snd (needsRegen e version h s w)) = cmds w"
  by (simp add: needsRegen_def Let_def split: option.splits)

lemma CheckAndReload_cmds [simp]: "cmds (snd (snd (CheckAndReload e h w))) = cmds w"
  by (simp add: CheckAndReload_def time_Now_def tick_def WalkDir_def Let_def
      split: prod.splits sum.splits option.splits)

subsection \<open>Generation\<close>

lemma generateGCD_none:
  assumes "GetHashtabsForVersion h version = []"
  shows "generateGCD e version h s w = (Some (''no hashtabs found for version '' @ version), s, w)"
  using assms by (simp add: generateGCD_def)

lemma generateGCD_one:
  assumes "GetHashtabsForVersion h version = [ht]"
  shows "\<exists>t1 t2. generateGCD e version h s w =
           (None,
            s\<lparr>gcdHashtabs := (gcdHashtabs s)(version \<mapsto>
                 \<lparr>gcd_Version = version, gcd_Path = ht_Path ht,
                  gcd_SourceModTime = t1, gcd_DeviceCount = 1\<rparr>),
              sourceModTimes := (sourceModTimes s)(version \<mapsto> [ht_Path ht \<mapsto> t2])\<rparr>,
            w\<lparr>step := step w + 2\<rparr>)"
  using assms
  by (intro exI [of _ "clock e (step w)"] exI [of _ "clock e (Suc (step w))"])
     (simp add: generateGCD_def time_Now_def tick_def)

lemma generateGCD_many_fail:
  assumes "length (GetHashtabsForVersion h version) \<ge> 2"
    and "exec e (step w) (mergeArgv s version (GetHashtabsForVersion h version))
           = Some (err, stderr, stdout)"
  shows "generateGCD e version h s w =
           (Some (''qmldiff gcd-hashtab failed: '' @ ''command failed: '' @ err @ newline
                  @ ''stderr: '' @ stderr @ newline @ ''stdout: '' @ stdout),
            s,
            w\<lparr>step := Suc (step w),
              cmds := cmds w @ [(mergeArgv s version (GetHashtabsForVersion h version), False)]\<rparr>)"
proof -
  have "GetHashtabsForVersion h version \<noteq> []"
    and "length (GetHashtabsForVersion h version) \<noteq> Suc 0"
    using assms(1) by auto
  then show ?thesis
    using assms(2)
    by (simp add: generateGCD_def runQmldiff_def run_command_def mergeArgv_def Let_def)
qed

lemma generateGCD_many_ok:
  assumes "length (GetHashtabsForVersion h version) \<ge> 2"
    and "exec e (step w) (mergeArgv s version (GetHashtabsForVersion h version)) = None"
  shows "\<exists>t mods w'. generateGCD e version h s w =
           (None,
            s\<lparr>gcdHashtabs := (gcdHashtabs s)(version \<mapsto>
                 \<lparr>gcd_Version = version, gcd_Path = filepath_Join [gcdDir s, version @ ''.gcd''],
                  gcd_SourceModTime = t,
                  gcd_DeviceCount = int (length (GetHashtabsForVersion h version))\<rparr>),
              sourceModTimes := (sourceModTimes s)(version \<mapsto> mods)\<rparr>,
            w')
         \<and> cmds w' = cmds w @ [(mergeArgv s version (GetHashtabsForVersion h version), True)]"
proof -
  let ?hts = "GetHashtabsForVersion h version"
  let ?w1 = "w\<lparr>step := Suc (step w), cmds := cmds w @ [(mergeArgv s version ?hts, True)]\<rparr>"
  have r: "runQmldiff e (qmldiffBinary s)
             ([''gcd-hashtab'', filepath_Join [gcdDir s, version @ ''.gcd'']] @ map ht_Path ?hts) w
           = (None, ?w1)"
    using assms(2) by (simp add: runQmldiff_def run_command_def mergeArgv_def)
  obtain t w2 where t: "time_Now e ?w1 = (t, w2)" by (cases "time_Now e ?w1")
  obtain mods w3 where m: "statSources e ?hts Map.empty w2 = (mods, w3)"
    by (cases "statSources e ?hts Map.empty w2")
  have c2: "cmds w2 = cmds ?w1" using time_Now_cmds [of e ?w1] t by simp
  have c3: "cmds w3 = cmds w2" using statSources_cmds [of e ?hts Map.empty w2] m by simp
  have "?hts \<noteq> []" and "length ?hts \<noteq> Suc 0"
    using assms(1) by auto
  then show ?thesis
    using r t m c2 c3
    by (intro exI [of _ t] exI [of _ mods] exI [of _ w3]) (simp add: generateGCD_def Let_def)
qed

subsection \<open>The snapshot that a generation records\<close>

lemma lastStat_None:
  "lastStat e k hts p = None \<longleftrightarrow>
     (\<forall>i < length hts. ht_Path (hts ! i) = p \<longrightarrow> osStat e (k + i) p = None)"
proof (induction hts arbitrary: k)
  case Nil
  show ?case by simp
next
  case (Cons ht hts)
  have step: "lastStat e k (ht # hts) p = None \<longleftrightarrow>
                lastStat e (Suc k) hts p = None \<and> (ht_Path ht = p \<longrightarrow> osStat e k p = None)"
    by (auto split: option.splits)
  have split: "(\<forall>i < length (ht # hts). P i) \<longleftrightarrow> P 0 \<and> (\<forall>i < length hts. P (Suc i))" for P
    by (auto simp: less_Suc_eq_0_disj)
  show ?case
    unfolding step Cons.IH by (subst split) auto
qed

lemma lastStat_Some:
  "lastStat e k hts p = Some t \<longleftrightarrow>
     (\<exists>i < length hts. ht_Path (hts ! i) = p \<and> osStat e (k + i) p = Some t
        \<and> (\<forall>j < length hts. i < j \<and> ht_Path (hts ! j) = p \<longrightarrow> osStat e (k + j) p = None))"
proof (induction hts arbitrary: k)
  case Nil
  show ?case by simp
next
  case (Cons ht hts)
  let ?Q = "\<lambda>k hts i. ht_Path (hts ! i) = p \<and> osStat e (k + i) p = Some t
        \<and> (\<forall>j < length hts. i < j \<and> ht_Path (hts ! j) = p \<longrightarrow> osStat e (k + j) p = None)"
  have step: "lastStat e k (ht # hts) p = Some t \<longleftrightarrow>
                lastStat e (Suc k) hts p = Some t
                \<or> (lastStat e (Suc k) hts p = None \<and> ht_Path ht = p \<and> osStat e k p = Some t)"
    by (auto split: option.splits)
  have alls: "(\<forall>i < length (ht # hts). P i) \<longleftrightarrow> P 0 \<and> (\<forall>i < length hts. P (Suc i))" for P
    by (auto simp: less_Suc_eq_0_disj)
  have zero: "?Q k (ht # hts) 0 \<longleftrightarrow>
                lastStat e (Suc k) hts p = None \<and> ht_Path ht = p \<and> osStat e k p = Some t"
    unfolding lastStat_None by (subst alls) auto
  have suc: "?Q k (ht # hts) (Suc i) \<longleftrightarrow> ?Q (Suc k) hts i" for i
    by (subst alls) auto
  have "(\<exists>i < length (ht # hts). ?Q k (ht # hts) i) \<longleftrightarrow>
          ?Q k (ht # hts) 0 \<or> (\<exists>i < length hts. ?Q k (ht # hts) (Suc i))"
    by (auto simp: less_Suc_eq_0_disj)
  also have "\<dots> \<longleftrightarrow> (lastStat e (Suc k) hts p = None \<and> ht_Path ht = p \<and> osStat e k p = Some t)
                     \<or> (\<exists>i < length hts. ?Q (Suc k) hts i)"
    unfolding zero suc ..
  also have "\<dots> \<longleftrightarrow> lastStat e k (ht # hts) p = Some t"
    unfolding step Cons.IH [of "Suc k"] by blast
  finally show ?case by simp
qed

lemma statSources_lastStat:
  "statSources e hts m w =
     ((\<lambda>p. case lastStat e (step w) hts p of Some t \<Rightarrow> Some t | None \<Rightarrow> m p),
      w\<lparr>step := step w + length hts\<rparr>)"
proof (induction hts arbitrary: m w)
  case Nil
  show ?case by simp
next
  case (Cons ht hts)
  show ?case
    by (auto simp: Cons.IH os_Stat_def tick_def fun_eq_iff split: option.splits)
qed

lemma statSources_snapshot:
  "snapshotOf e (step w) hts (fst (statSources e hts Map.empty w))"
proof -
  have "fst (statSources e hts Map.empty w) = lastStat e (step w) hts"
    by (simp add: statSources_lastStat fun_eq_iff split: option.splits)
  then show ?thesis
    unfolding snapshotOf_def by (intro allI) (simp only: lastStat_Some)
qed

lemma statSources_step: "step (snd (statSources e hts m w)) = step w + length hts"
  by (simp add: statSources_lastStat)

lemma generateGCD_records:
  assumes "fst (generateGCD e version h s w) = None"
  shows "snapshotUpdated e version h (step w) (fst (snd (generateGCD e version h s w)))"
proof -
  let ?hts = "GetHashtabsForVersion h version"
  consider (zero) "?hts = []" | (one) ht where "?hts = [ht]" | (many) "2 \<le> length ?hts"
    by (cases ?hts rule: remdups_adj.cases) auto
  then show ?thesis
  proof cases
    case zero
    then show ?thesis using assms by (simp add: generateGCD_def)
  next
    case one
    then show ?thesis
      by (simp add: generateGCD_def snapshotUpdated_def time_Now_def tick_def)
  next
    case many
    then have ne: "?hts \<noteq> []" "length ?hts \<noteq> Suc 0" by auto
    let ?args = "[''gcd-hashtab'', filepath_Join [gcdDir s, version @ ''.gcd'']] @ map ht_Path ?hts"
    obtain r w1 where rq: "runQmldiff e (qmldiffBinary s) ?args w = (r, w1)"
      by (cases "runQmldiff e (qmldiffBinary s) ?args w")
    have s1: "step w1 = Suc (step w)"
      using rq by (auto simp: runQmldiff_def run_command_def Let_def split: option.splits prod.splits)
    have r: "r = None"
      using assms rq ne by (auto simp: generateGCD_def Let_def split: option.splits prod.splits)
    let ?w2 = "snd (time_Now e w1)"
    have s2: "step ?w2 = step w + 2" using s1 by (simp add: time_Now_def tick_def)
    have snap: "snapshotOf e (step w + 2) ?hts (fst (statSources e ?hts Map.empty ?w2))"
      using statSources_snapshot [of e ?w2 ?hts] s2 by simp
    show ?thesis
      using rq r ne snap
      by (auto simp: generateGCD_def snapshotUpdated_def Let_def split: prod.splits)
  qed
qed

subsection \<open>The outcome of a generation\<close>

text \<open>
  C1, as the code has it. With \<open>N\<close> the number of sources the registry has for the
  version: \<open>generateGCD\<close> succeeds if and only if \<open>N = 1\<close>, or \<open>N \<ge> 2\<close> and the
  external merge succeeds. For \<open>N = 0\<close> it returns the not-found error and changes
  nothing. For \<open>N = 1\<close> the path of the derived artifact is the path of the only
  source and no command is run. For \<open>N \<ge> 2\<close> exactly one command is run, the
  merge \<open>qmldiff gcd-hashtab\<close> with the output path \<open>gcdDir/version.gcd\<close> followed
  by the source paths in the registry's order, and on success that output path
  is the path of the derived artifact.
\<close>

theorem generateGCD_outcome:
  "(fst (generateGCD e version h s w) = None \<longleftrightarrow>
      length (GetHashtabsForVersion h version) = 1
      \<or> (2 \<le> length (GetHashtabsForVersion h version)
         \<and> exec e (step w) (mergeArgv s version (GetHashtabsForVersion h version)) = None))
   \<and> (length (GetHashtabsForVersion h version) = 0 \<longrightarrow>
        generateGCD e version h s w =
          (Some (''no hashtabs found for version '' @ version), s, w))
   \<and> (length (GetHashtabsForVersion h version) = 1 \<longrightarrow>
        map_option gcd_Path (gcdHashtabs (fst (snd (generateGCD e version h s w))) version)
          = Some (ht_Path (GetHashtabsForVersion h version ! 0))
        \<and> cmds (snd (snd (generateGCD e version h s w))) = cmds w)
   \<and> (2 \<le> length (GetHashtabsForVersion h version) \<longrightarrow>
        cmds (snd (snd (generateGCD e version h s w))) =
          cmds w @ [(mergeArgv s version (GetHashtabsForVersion h version),
                     fst (generateGCD e version h s w) = None)]
        \<and> (fst (generateGCD e version h s w) = None \<longrightarrow>
             map_option gcd_Path (gcdHashtabs (fst (snd (generateGCD e version h s w))) version)
               = Some (filepath_Join [gcdDir s, version @ ''.gcd''])))"
proof -
  let ?hts = "GetHashtabsForVersion h version"
  consider (zero) "?hts = []" | (one) ht where "?hts = [ht]" | (many) "2 \<le> length ?hts"
    by (cases ?hts rule: remdups_adj.cases) auto
  then show ?thesis
  proof cases
    case zero
    then show ?thesis using generateGCD_none [OF zero, of e s w] by simp
  next
    case one
    then show ?thesis using generateGCD_one [OF one, of e s w] by auto
  next
    case many
    show ?thesis
    proof (cases "exec e (step w) (mergeArgv s version ?hts)")
      case None
      then show ?thesis using many generateGCD_many_ok [OF many None] by auto
    next
      case (Some x)
      obtain err stderr stdout where "x = (err, stderr, stdout)" by (cases x)
      with Some have ex: "exec e (step w) (mergeArgv s version ?hts) = Some (err, stderr, stdout)"
        by simp
      show ?thesis using many ex generateGCD_many_fail [OF many ex] by auto
    qed
  qed
qed

theorem generateGCD_outcome_witness:
  "length (GetHashtabsForVersion (emptyService ''ht'') exV) = 0
   \<and> generateGCD exEnv exV (emptyService ''ht'') exCache io0 =
       (Some ''no hashtabs found for version 3.25'', exCache, io0)
   \<and> length (GetHashtabsForVersion exRegistryOne exV) = 1
   \<and> map_option gcd_Path (gcdHashtabs (fst (snd (generateGCD exEnv exV exRegistryOne exCache io0))) exV)
       = Some ''ht/a''
   \<and> cmds (snd (snd (generateGCD exEnv exV exRegistryOne exCache io0))) = []
   \<and> 2 \<le> length (GetHashtabsForVersion exRegistry exV)
   \<and> fst (generateGCD exEnv exV exRegistry exCache io0) = None
   \<and> cmds (snd (snd (generateGCD exEnv exV exRegistry exCache io0))) =
       [([''qmldiff'', ''gcd-hashtab'', ''gcd/3.25.gcd'', ''ht/a'', ''ht/b''], True)]
   \<and> map_option gcd_Path (gcdHashtabs (fst (snd (generateGCD exEnv exV exRegistry exCache io0))) exV)
       = Some ''gcd/3.25.gcd''"
proof -
  have n0: "length (GetHashtabsForVersion (emptyService ''ht'') exV) = 0"
    and n1: "GetHashtabsForVersion exRegistryOne exV = [htA]"
    and n2: "GetHashtabsForVersion exRegistry exV = [htA, htB]"
    by (simp_all add: GetHashtabsForVersion_def emptyService_def exRegistryOne_def exRegistry_def
        exV_def)
  have ok: "exec exEnv (step io0) (mergeArgv exCache exV [htA, htB]) = None"
    by (simp add: exEnv_def)
  have argv: "mergeArgv exCache exV [htA, htB] =
                [''qmldiff'', ''gcd-hashtab'', ''gcd/3.25.gcd'', ''ht/a'', ''ht/b'']"
    by (simp add: mergeArgv_def exCache_def exV_def htA_def htB_def filepath_Join_def
        filepath_Clean_def)
  show ?thesis
    using n0 n1 n2 ok argv
      generateGCD_outcome [of exEnv exV "emptyService ''ht''" exCache io0]
      generateGCD_outcome [of exEnv exV exRegistryOne exCache io0]
      generateGCD_outcome [of exEnv exV exRegistry exCache io0]
    by (simp add: exV_def htA_def io0_def exCache_def filepath_Join_def filepath_Clean_def)
qed

text \<open>
  C1 as stated ("succeeds iff \<open>N \<ge> 1\<close>") fails when the merge fails: with two
  sources and a failing \<open>qmldiff\<close>, \<open>generateGCD\<close> returns an error.
\<close>

theorem generateGCD_iff_counterexample:
  "\<not> (fst (generateGCD exEnvFail exV exRegistry exCache io0) = None
       \<longleftrightarrow> 1 \<le> length (GetHashtabsForVersion exRegistry exV))"
  by (simp add: cache_defs ex_defs io_defs)

text \<open>
  C4, as the code has it. When the external merge fails (it is run when the
  version has two sources or more), \<open>generateGCD\<close> returns the error, with the
  diagnostics of the command in its text, and the cache is exactly as before the
  call: no entry is installed, both maps are unchanged, and an entry that was
  there before the call is kept. So a version that had no entry still has none,
  and the next request, whatever the outside and the registry are then, finds
  that it has to regenerate.
\<close>

theorem generateGCD_engine_failure:
  assumes "2 \<le> length (GetHashtabsForVersion h version)"
    and "exec e (step w) (mergeArgv s version (GetHashtabsForVersion h version))
           = Some (err, stderr, stdout)"
  shows "fst (generateGCD e version h s w) =
           Some (''qmldiff gcd-hashtab failed: '' @ ''command failed: '' @ err @ newline
                 @ ''stderr: '' @ stderr @ newline @ ''stdout: '' @ stdout)
       \<and> fst (snd (generateGCD e version h s w)) = s
       \<and> gcdHashtabs (fst (snd (generateGCD e version h s w))) = gcdHashtabs s
       \<and> sourceModTimes (fst (snd (generateGCD e version h s w))) = sourceModTimes s
       \<and> (gcdHashtabs s version = None \<longrightarrow>
            fst (needsRegen e2 version h2 (fst (snd (generateGCD e version h s w))) w2))"
  using generateGCD_many_fail [OF assms] by (simp add: needsRegen_def)

theorem generateGCD_engine_failure_witness:
  "2 \<le> length (GetHashtabsForVersion exRegistry exV)
   \<and> exec exEnvFail (step io0) (mergeArgv exCache exV (GetHashtabsForVersion exRegistry exV))
       = Some (''exit status 1'', ''boom'', [])
   \<and> fst (generateGCD exEnvFail exV exRegistry exCache io0) =
       Some (''qmldiff gcd-hashtab failed: command failed: exit status 1'' @ newline
             @ ''stderr: boom'' @ newline @ ''stdout: '')
   \<and> fst (snd (generateGCD exEnvFail exV exRegistry exCache io0)) = exCache
   \<and> gcdHashtabs exCache exV = None
   \<and> gcdHashtabs (fst (snd (generateGCD exEnvFail exV exRegistry exCache io0))) exV = None
   \<and> fst (needsRegen exEnv exV exRegistry
             (fst (snd (generateGCD exEnvFail exV exRegistry exCache io0))) io0)"
proof -
  have n2: "2 \<le> length (GetHashtabsForVersion exRegistry exV)"
    by (simp add: GetHashtabsForVersion_def exRegistry_def exV_def)
  have ex: "exec exEnvFail (step io0) (mergeArgv exCache exV (GetHashtabsForVersion exRegistry exV))
              = Some (''exit status 1'', ''boom'', [])"
    by (simp add: exEnvFail_def exEnv_def)
  have none: "gcdHashtabs exCache exV = None"
    by (simp add: exCache_def)
  show ?thesis
    using n2 ex none generateGCD_engine_failure [OF n2 ex, of exEnv exRegistry io0]
    by (auto simp: newline_def)
qed

text \<open>
  C4 as stated ("so the next request retries derivation from scratch") fails
  when the version had an entry before the failed call. Here the cache holds the
  merged artifact of version \<open>3.25\<close>; a file of another version has been added,
  so the first request reloads the registry and regenerates, and the merge fails;
  the old entry is kept. The second request, four seconds later, finds the entry
  not stale and returns its path: the only command of the two requests is the
  merge that failed.
\<close>

theorem generateGCD_failure_no_retry_counterexample:
  "twoRequests exEnvOtherFail exV exRegistryChecked exCacheFull io18 =
     (Inl (''qmldiff gcd-hashtab failed: command failed: exit status 1'' @ newline
           @ ''stderr: boom'' @ newline @ ''stdout: ''),
      Inr ''gcd/3.25.gcd'',
      [([''qmldiff'', ''gcd-hashtab'', ''gcd/3.25.gcd'', ''ht/a'', ''ht/b''], False)])
   \<and> fst (snd (snd (GetGCDHashtab exEnvOtherFail exV exRegistryChecked exCacheFull io18)))
       = exCacheFull"
  by (simp add: twoRequests_def cache_defs ex_defs io_defs newline_def)

subsection \<open>Requests\<close>

lemma sourcesChanged_iff:
  "fst (sourcesChanged e hts sm w) \<longleftrightarrow>
     (\<exists>i < length hts.
        case osStat e (step w + i) (ht_Path (hts ! i)) of
          None \<Rightarrow> False
        | Some t \<Rightarrow> sm (ht_Path (hts ! i)) \<noteq> Some t)"
proof (induction hts arbitrary: w)
  case Nil
  show ?case by simp
next
  case (Cons ht hts)
  have split: "(\<exists>i < length (ht # hts). P i) \<longleftrightarrow> P 0 \<or> (\<exists>i < length hts. P (Suc i))" for P
    by (auto simp: less_Suc_eq_0_disj)
  show ?case
    using Cons.IH [of "tick w"]
    by (subst split) (auto simp: os_Stat_def tick_def split: option.splits)
qed

lemma needsRegen_iff:
  "fst (needsRegen e version h s w) \<longleftrightarrow> staleEntry e version h s w"
  by (simp add: needsRegen_def staleEntry_def sourcesChanged_iff Let_def split: option.splits)

lemma CheckAndReload_rate_limited:
  assumes "clock e (step w) - lastReloadCheck h < 5 * Second"
  shows "CheckAndReload e h w = ((False, None), h, tick w)"
  using assms by (simp add: CheckAndReload_def time_Now_def)

text \<open>
  C3, as the code has it. After the registry's check (which leaves the registry
  \<open>h1\<close>): when the registry has reloaded, or when the cache entry is stale in the
  sense of \<open>staleEntry\<close>, the request is answered by running \<open>generateGCD\<close> on the
  registry as it is now, an error of which is returned, and a success of which
  leaves the snapshot updated in the sense of \<open>snapshotUpdated\<close>; otherwise there
  is an entry, its path is returned, the cache is unchanged and no command is
  run. In particular a source that the registry has for the version and whose
  modification time, read by \<open>os.Stat\<close>, is not the recorded one makes the
  request regenerate, and so does a number of sources in the registry that is not
  the recorded count. Within five seconds of its last check the registry does not
  look at the directory and stays as it is, so a file added or removed on disk is
  not seen by such a request.
\<close>

theorem GetGCDHashtab_regenerates_iff:
  assumes "CheckAndReload e h w = ((reloaded, err), h1, w1)"
  shows "(if reloaded \<or> staleEntry e version h1 s w1
          then \<exists>w2. cmds w2 = cmds w
                 \<and> GetGCDHashtab e version h s w =
                     (case generateGCD e version h1 s w2 of
                        (Some err, s', w') \<Rightarrow> (Inl err, h1, s', w')
                      | (None, s', w') \<Rightarrow> (cachedPath s' version, h1, s', w'))
                 \<and> (fst (generateGCD e version h1 s w2) = None \<longrightarrow>
                      snapshotUpdated e version h1 (step w2)
                        (fst (snd (snd (GetGCDHashtab e version h s w)))))
          else \<exists>g w2. gcdHashtabs s version = Some g \<and> cmds w2 = cmds w
                 \<and> GetGCDHashtab e version h s w = (Inr (gcd_Path g), h1, s, w2))
       \<and> (clock e (step w) - lastReloadCheck h < 5 * Second \<longrightarrow> \<not> reloaded \<and> h1 = h)"
proof -
  have c1: "cmds w1 = cmds w"
    using CheckAndReload_cmds [of e h w] assms by simp
  obtain b w2 where nr: "needsRegen e version h1 s w1 = (b, w2)"
    by (cases "needsRegen e version h1 s w1")
  have b: "b \<longleftrightarrow> staleEntry e version h1 s w1"
    using needsRegen_iff [of e version h1 s w1] nr by simp
  have c2: "cmds w2 = cmds w"
    using needsRegen_cmds [of e version h1 s w1] nr c1 by simp
  have limited: "clock e (step w) - lastReloadCheck h < 5 * Second \<longrightarrow> \<not> reloaded \<and> h1 = h"
    using CheckAndReload_rate_limited [of e w h] assms by auto
  have main: "if reloaded \<or> staleEntry e version h1 s w1
          then \<exists>w2. cmds w2 = cmds w
                 \<and> GetGCDHashtab e version h s w =
                     (case generateGCD e version h1 s w2 of
                        (Some err, s', w') \<Rightarrow> (Inl err, h1, s', w')
                      | (None, s', w') \<Rightarrow> (cachedPath s' version, h1, s', w'))
                 \<and> (fst (generateGCD e version h1 s w2) = None \<longrightarrow>
                      snapshotUpdated e version h1 (step w2)
                        (fst (snd (snd (GetGCDHashtab e version h s w)))))
          else \<exists>g w2. gcdHashtabs s version = Some g \<and> cmds w2 = cmds w
                 \<and> GetGCDHashtab e version h s w = (Inr (gcd_Path g), h1, s, w2)"
  proof (cases reloaded)
    case True
    then show ?thesis
      using assms c1 generateGCD_records [of e version h1 s w1]
      by (auto simp: GetGCDHashtab_def intro!: exI [of _ w1] split: prod.splits option.splits)
  next
    case False
    show ?thesis
    proof (cases b)
      case True
      then show ?thesis
        using assms nr b c2 False generateGCD_records [of e version h1 s w2]
        by (auto simp: GetGCDHashtab_def intro!: exI [of _ w2] split: prod.splits option.splits)
    next
      case nb: False
      then have "\<not> staleEntry e version h1 s w1" using b by simp
      then obtain g where g: "gcdHashtabs s version = Some g"
        by (auto simp: staleEntry_def split: option.splits)
      show ?thesis
        using assms nr b c2 False nb g
        by (auto simp: GetGCDHashtab_def cachedPath_def intro!: exI [of _ w2])
    qed
  qed
  from main limited show ?thesis by (rule conjI)
qed

theorem GetGCDHashtab_regenerates_iff_witness:
  "CheckAndReload exEnv exRegistry io0 =
     ((False, None), exRegistry\<lparr>lastReloadCheck := 10 * Second\<rparr>, \<lparr>step = 3, cmds = []\<rparr>)
   \<and> \<not> staleEntry exEnv exV (exRegistry\<lparr>lastReloadCheck := 10 * Second\<rparr>) exCacheFull
         \<lparr>step = 3, cmds = []\<rparr>
   \<and> fst (GetGCDHashtab exEnv exV exRegistry exCacheFull io0) = Inr ''gcd/3.25.gcd''
   \<and> fst (snd (snd (GetGCDHashtab exEnv exV exRegistry exCacheFull io0))) = exCacheFull
   \<and> staleEntry exEnv exV (exRegistry\<lparr>lastReloadCheck := 10 * Second\<rparr>) exCache
         \<lparr>step = 3, cmds = []\<rparr>
   \<and> fst (GetGCDHashtab exEnv exV exRegistry exCache io0) = Inr ''gcd/3.25.gcd''
   \<and> cmds (snd (snd (snd (GetGCDHashtab exEnv exV exRegistry exCache io0)))) =
       [([''qmldiff'', ''gcd-hashtab'', ''gcd/3.25.gcd'', ''ht/a'', ''ht/b''], True)]
   \<and> map_option (\<lambda>m. (m ''ht/a'', m ''ht/b'', m ''ht/c''))
        (sourceModTimes (fst (snd (snd (GetGCDHashtab exEnv exV exRegistry exCache io0)))) exV)
       = Some (Some 1, Some 2, None)
   \<and> map_option gcd_DeviceCount
        (gcdHashtabs (fst (snd (snd (GetGCDHashtab exEnv exV exRegistry exCache io0)))) exV)
       = Some 2
   \<and> clock exEnvAdded (step io22) - lastReloadCheck exRegistryShadow < 5 * Second
   \<and> CheckAndReload exEnvAdded exRegistryShadow io22 =
       ((False, None), exRegistryShadow, \<lparr>step = 23, cmds = []\<rparr>)"
proof -
  have car: "CheckAndReload exEnv exRegistry io0 =
     ((False, None), exRegistry\<lparr>lastReloadCheck := 10 * Second\<rparr>, \<lparr>step = 3, cmds = []\<rparr>)"
    by (simp add: cache_defs ex_defs io_defs)
  have fresh: "\<not> staleEntry exEnv exV (exRegistry\<lparr>lastReloadCheck := 10 * Second\<rparr>) exCacheFull
                  \<lparr>step = 3, cmds = []\<rparr>"
    by (simp add: staleEntry_def GetHashtabsForVersion_def ex_defs less_Suc_eq)
  have stale: "staleEntry exEnv exV (exRegistry\<lparr>lastReloadCheck := 10 * Second\<rparr>) exCache
                  \<lparr>step = 3, cmds = []\<rparr>"
    by (simp add: staleEntry_def ex_defs)
  have lim: "clock exEnvAdded (step io22) - lastReloadCheck exRegistryShadow < 5 * Second"
    by (simp add: ex_defs Second_def)
  have car2: "CheckAndReload exEnvAdded exRegistryShadow io22 =
       ((False, None), exRegistryShadow, \<lparr>step = 23, cmds = []\<rparr>)"
    by (simp add: cache_defs ex_defs io_defs)
  show ?thesis
    using car fresh stale lim car2
      GetGCDHashtab_regenerates_iff [OF car, of exV exCacheFull]
      GetGCDHashtab_regenerates_iff [OF car, of exV exCache]
      GetGCDHashtab_regenerates_iff [OF car2, of exV exCacheFull]
    by (simp add: cache_defs ex_defs io_defs)
qed

text \<open>
  C3 as stated fails in two ways. First, in the state \<open>exRegistryShadow\<close>,
  \<open>exCacheFull\<close>: the registry reports no reload (it checked three seconds
  ago), the entry exists, its count is the number of sources, and both recorded
  paths \<open>ht/a\<close> and \<open>ht/b\<close> have the recorded modification times; yet the
  request runs the merge again and replaces the snapshot, because the source
  \<open>ht/0/b\<close> that the registry now has is not in the snapshot. Second, a change of
  the device count does not always make the next request regenerate: a request is
  answered from the cache; then a third artifact \<open>ht/c\<close> of the version is added
  to the directory (a scan of which now gives three sources); the next request,
  four seconds after the registry's check, is answered from the cache again, and
  neither request runs a command.
\<close>

theorem GetGCDHashtab_staleness_counterexample:
  "fst (fst (CheckAndReload exEnvShadow exRegistryShadow io22)) = False
   \<and> map_option gcd_DeviceCount (gcdHashtabs exCacheFull exV)
       = Some (int (length (GetHashtabsForVersion exRegistryShadow exV)))
   \<and> sourceModTimes exCacheFull exV = Some exSnapshot
   \<and> dom exSnapshot = {''ht/a'', ''ht/b''}
   \<and> exStatShadow ''ht/a'' = exSnapshot ''ht/a''
   \<and> exStatShadow ''ht/b'' = exSnapshot ''ht/b''
   \<and> fst (GetGCDHashtab exEnvShadow exV exRegistryShadow exCacheFull io22) = Inr ''gcd/3.25.gcd''
   \<and> cmds (snd (snd (snd (GetGCDHashtab exEnvShadow exV exRegistryShadow exCacheFull io22)))) =
       [([''qmldiff'', ''gcd-hashtab'', ''gcd/3.25.gcd'', ''ht/0/b'', ''ht/a''], True)]
   \<and> map_option (\<lambda>m. (m ''ht/0/b'', m ''ht/a'', m ''ht/b''))
        (sourceModTimes (fst (snd (snd (GetGCDHashtab exEnvShadow exV exRegistryShadow exCacheFull io22))))
           exV)
       = Some (Some 3, Some 1, None)
   \<and> step (snd (snd (snd (GetGCDHashtab exEnvAdded exV exRegistryChecked exCacheFull io18)))) = 23
   \<and> walkDir exEnvAdded 23 ''ht'' = exWalkAdded
   \<and> length (GetHashtabsForVersion (snd (loadWalk exWalkAdded Map.empty (emptyService ''ht''))) exV)
       = 3
   \<and> map_option gcd_DeviceCount (gcdHashtabs exCacheFull exV) = Some 2
   \<and> twoRequests exEnvAdded exV exRegistryChecked exCacheFull io18 =
       (Inr ''gcd/3.25.gcd'', Inr ''gcd/3.25.gcd'', [])"
  by (auto simp: twoRequests_def cache_defs ex_defs io_defs emptyService_def)

text \<open>
  That state is reached: the cache entry is what \<open>generateGCD\<close> installs from
  the directory as it was, and the registry is what a later request for another
  version leaves after the file has been added.
\<close>

lemma exCacheFull_generated:
  "generateGCD exEnv exV exRegistry exCache \<lparr>step = 6, cmds = []\<rparr> =
     (None, exCacheFull,
      \<lparr>step = 10,
        cmds = [([''qmldiff'', ''gcd-hashtab'', ''gcd/3.25.gcd'', ''ht/a'', ''ht/b''], True)]\<rparr>)"
  by (simp add: cache_defs ex_defs io_defs)

lemma exRegistryShadow_reached:
  "GetGCDHashtab exEnvShadow ''9.99'' (exRegistry\<lparr>lastReloadCheck := 100 * Second\<rparr>) exCacheFull
     \<lparr>step = 18, cmds = []\<rparr> =
     (Inl ''no hashtabs found for version 9.99'', exRegistryShadow, exCacheFull, io22)"
  by (simp add: cache_defs ex_defs io_defs)

text \<open>
  C2. The directory holds the two sources of version \<open>3.25\<close> and a file
  \<open>ht/junk\<close> that does not parse; nothing changes on disk. The loading walk
  records modification times only for the files it loads, while the detecting walk
  takes every file without a recorded time for a change. So every check that is
  not rate-limited reloads the registry, and each of two requests made more than
  five seconds apart runs the external merge: two merges, not at most one.
\<close>

theorem twoRequests_unparsed_file_two_merges:
  "NewService exEnvJunk ''ht'' io0 = (Inr exRegistry, \<lparr>step = 1, cmds = []\<rparr>)
   \<and> twoRequests exEnvJunk exV exRegistry exCache io0 =
       (Inr ''gcd/3.25.gcd'', Inr ''gcd/3.25.gcd'',
        [([''qmldiff'', ''gcd-hashtab'', ''gcd/3.25.gcd'', ''ht/a'', ''ht/b''], True),
         ([''qmldiff'', ''gcd-hashtab'', ''gcd/3.25.gcd'', ''ht/a'', ''ht/b''], True)])"
  by (simp add: twoRequests_def NewService_def loadHashtables_def emptyService_def
      cache_defs ex_defs io_defs)

text \<open>Without the unparsed file the same two requests run one merge.\<close>

lemma twoRequests_one_merge:
  "twoRequests exEnv exV exRegistry exCache io0 =
     (Inr ''gcd/3.25.gcd'', Inr ''gcd/3.25.gcd'',
      [([''qmldiff'', ''gcd-hashtab'', ''gcd/3.25.gcd'', ''ht/a'', ''ht/b''], True)])"
  by (simp add: twoRequests_def cache_defs ex_defs io_defs)

subsection \<open>Errors of the directory walk\<close>

text \<open>
  An error in the first walk of \<open>CheckAndReload\<close> is reported as no reload and
  leaves the registry as it was, but for the time of the last check.
\<close>

lemma CheckAndReload_detect_error:
  assumes "5 * Second \<le> clock e (step w) - lastReloadCheck h"
    and "detectWalk (modTimes h) (walkDir e (step w + 2) (dir h)) [] False = Inl err"
  shows "CheckAndReload e h w =
           ((False, Some (''failed to walk hashtable directory: '' @ err)),
            h\<lparr>lastReloadCheck := clock e (Suc (step w))\<rparr>,
            w\<lparr>step := step w + 3\<rparr>)"
  using assms
  by (simp add: CheckAndReload_def time_Now_def tick_def WalkDir_def Let_def)

text \<open>
  C8. \<open>ht/b\<close> has been touched; the first walk of \<open>CheckAndReload\<close> reads the
  directory and sees the change, the second walk gets an I/O error after
  \<open>ht/a\<close>. The call reports that no reload occurred, but the registry has been
  emptied and filled again up to the error: \<open>ht/b\<close> is gone from the list, from
  the name map, from the version's group and from the time map.
\<close>

theorem CheckAndReload_error_in_reload_walk:
  "CheckAndReload exEnvBroken exRegistry io0 =
     ((False, Some ''failed to reload hashtables: input/output error''),
      \<lparr>hashtables = [htA], dir = ''ht'', modTimes = [(''ht/a'', 1)],
       pathByName = [''a'' \<mapsto> ''ht/a''], byVersion = [''3.25'' \<mapsto> [htA]],
       lastReloadCheck = 10 * Second\<rparr>,
      \<lparr>step = 4, cmds = []\<rparr>)
   \<and> hashtables exRegistry = [htA, htB]
   \<and> modTimes exRegistry = [(''ht/a'', 1), (''ht/b'', 2)]
   \<and> pathByName exRegistry ''b'' = Some ''ht/b''
   \<and> byVersion exRegistry ''3.25'' = Some [htA, htB]"
  by (simp add: cache_defs ex_defs io_defs)


section \<open>Properties of the processing task\<close>

lemma copyFile_cmds [simp]: "cmds (snd (copyFile e a b w)) = cmds w"
  by (simp add: copyFile_def tick_def)

lemma HashDiffs_cmds:
  "cmds (snd (HashDiffs e bin g q w)) =
     cmds w @ [([bin, ''hash-diffs'', g, q], fst (HashDiffs e bin g q w) = None)]"
  by (simp add: HashDiffs_def run_command_def Let_def split: option.splits prod.splits)

lemma hashedOK_hash [simp]: "hashedOK ([bin, ''hash-diffs'', g, q], b) = b"
  by (simp add: hashedOK_def)

lemma hashedOK_merge [simp]: "hashedOK (mergeArgv s version hts, b) = False"
  by (simp add: hashedOK_def mergeArgv_def)

lemma UpdateProgress_jobs [simp]: "jobs (UpdateProgress jid p st) = jobs st"
  by (simp add: UpdateProgress_def Let_def split: option.splits)

lemma copyFile_eq: "copyFile e a b w = (copyResult e (step w) a b, tick w)"
  by (simp add: copyFile_def)

lemma HashDiffs_eq:
  "HashDiffs e bin g q w =
     (case exec e (step w) [bin, ''hash-diffs'', g, q] of
        None \<Rightarrow> None
      | Some (err, stderr, stdout) \<Rightarrow>
          Some (''hash-diffs failed: '' @ err @ newline @ ''stderr: '' @ stderr @ newline
                @ ''stdout: '' @ stdout),
      w\<lparr>step := Suc (step w),
        cmds := cmds w @ [([bin, ''hash-diffs'', g, q], exec e (step w) [bin, ''hash-diffs'', g, q] = None)]\<rparr>)"
  by (simp add: HashDiffs_def run_command_def Let_def split: option.splits prod.splits)

lemma handled_shift:
  assumes "handled e bin gcdPath outputDir inputPath (relPaths ! i) k (ks ! 0) r c"
    and "\<forall>m < length rest. handled e bin gcdPath outputDir (rest ! m) (relPaths ! (Suc i + m))
            (ks ! m) (ks ! Suc m) (results' ! (Suc n + m)) (cl ! m)"
    and "results' ! n = r"
  shows "\<forall>m < length (inputPath # rest).
           handled e bin gcdPath outputDir ((inputPath # rest) ! m) (relPaths ! (i + m))
             ((k # ks) ! m) ((k # ks) ! Suc m) (results' ! (n + m)) ((c # cl) ! m)"
proof (intro allI impI)
  fix m assume "m < length (inputPath # rest)"
  then show "handled e bin gcdPath outputDir ((inputPath # rest) ! m) (relPaths ! (i + m))
               ((k # ks) ! m) ((k # ks) ! Suc m) (results' ! (n + m)) ((c # cl) ! m)"
    using assms by (cases m) auto
qed

lemma hashFiles_spec:
  assumes "i + length rest \<le> length relPaths"
  shows "\<exists>results' cs st' w' ks cl.
           hashFiles e bin jobID gcdPath outputDir n relPaths i rest results sc st w
             = Some (results', sc + length (filter hashedOK cs), st', w')
           \<and> cmds w' = cmds w @ cs
           \<and> jobs st' = jobs st
           \<and> map fr_Name results' = map fr_Name results @ take (length rest) (drop i relPaths)
           \<and> length (filter succeeded results')
               = length (filter succeeded results) + length (filter hashedOK cs)
           \<and> (\<forall>r \<in> set results'. r \<in> set results \<or> wellFormedResult r)
           \<and> take (length results) results' = results
           \<and> length results' = length results + length rest
           \<and> length ks = Suc (length rest) \<and> length cl = length rest
           \<and> ks ! 0 = step w \<and> ks ! length rest = step w'
           \<and> cs = concat cl
           \<and> (\<forall>m < length rest.
                 handled e bin gcdPath outputDir (rest ! m) (relPaths ! (i + m))
                   (ks ! m) (ks ! Suc m) (results' ! (length results + m)) (cl ! m))"
  using assms
proof (induction rest arbitrary: i results sc st w)
  case Nil
  show ?case
    by (intro exI [of _ results] exI [of _ "[]"] exI [of _ st] exI [of _ w]
              exI [of _ "[step w]"] exI [of _ "[]"]) simp
next
  case (Cons inputPath rest)
  then have i: "i < length relPaths" and rest: "Suc i + length rest \<le> length relPaths"
    by simp_all
  let ?relPath = "relPaths ! i"
  let ?out = "filepath_Join [outputDir, ?relPath]"
  let ?argv = "[bin, ''hash-diffs'', gcdPath, ?out]"
  have names: "take (length (inputPath # rest)) (drop i relPaths)
                 = ?relPath # take (length rest) (drop (Suc i) relPaths)"
    using i by (simp add: Cons_nth_drop_Suc [symmetric])
  \<comment> \<open>the iteration for this file: its result, its commands, and the state it leaves\<close>
  obtain r c sc1 st1 w1 where
    body: "hashFiles e bin jobID gcdPath outputDir n relPaths i (inputPath # rest) results sc st w
             = hashFiles e bin jobID gcdPath outputDir n relPaths (Suc i) rest (results @ [r])
                 sc1 st1 w1"
    and h: "handled e bin gcdPath outputDir inputPath ?relPath (step w) (step w1) r c"
    and c: "cmds w1 = cmds w @ c" and sc1: "sc1 = sc + length (filter hashedOK c)"
    and st1: "jobs st1 = jobs st"
    and wf: "wellFormedResult r" and nm: "fr_Name r = ?relPath"
    and su: "succeeded r \<longleftrightarrow> filter hashedOK c \<noteq> []"
  proof (cases "copyResult e (step w) inputPath ?out")
    case (Some err)
    show ?thesis
      by (rule that [of "errorResult ?relPath (''Failed to copy file: '' @ err)" sc st "tick w" "[]"])
         (use i Some in \<open>simp_all add: Let_def copyFile_eq handled_def tick_def wellFormedResult_def
            succeeded_def errorResult_def\<close>)
  next
    case None
    show ?thesis
    proof (cases "exec e (Suc (step w)) ?argv")
      case ok: None
      show ?thesis
        by (rule that [of "successResult ?relPath" "Suc sc"
              "UpdateProgress jobID (progressPct e (Suc i) n) st"
              "w\<lparr>step := Suc (Suc (step w)), cmds := cmds w @ [(?argv, True)]\<rparr>" "[(?argv, True)]"])
           (use i None ok in \<open>simp_all add: Let_def copyFile_eq HashDiffs_eq handled_def tick_def
              wellFormedResult_def succeeded_def successResult_def\<close>)
    next
      case (Some x)
      obtain err stderr stdout where x: "x = (err, stderr, stdout)" by (cases x)
      let ?msg = "''Hashing failed: hash-diffs failed: '' @ err @ newline @ ''stderr: ''
                      @ stderr @ newline @ ''stdout: '' @ stdout"
      show ?thesis
        by (rule that [of "errorResult ?relPath ?msg" sc st
              "w\<lparr>step := Suc (Suc (step w)), cmds := cmds w @ [(?argv, False)]\<rparr>" "[(?argv, False)]"])
           (use i None Some x in \<open>simp_all add: Let_def copyFile_eq HashDiffs_eq handled_def tick_def
              wellFormedResult_def succeeded_def errorResult_def\<close>)
    qed
  qed
  from Cons.IH [OF rest, of "results @ [r]" sc1 st1 w1]
  obtain results' cs st' w' ks cl where
    ih: "hashFiles e bin jobID gcdPath outputDir n relPaths (Suc i) rest (results @ [r]) sc1 st1 w1
           = Some (results', sc1 + length (filter hashedOK cs), st', w')"
      "cmds w' = cmds w1 @ cs" "jobs st' = jobs st1"
      "map fr_Name results' = map fr_Name (results @ [r]) @ take (length rest) (drop (Suc i) relPaths)"
      "length (filter succeeded results')
         = length (filter succeeded (results @ [r])) + length (filter hashedOK cs)"
      "\<forall>r' \<in> set results'. r' \<in> set (results @ [r]) \<or> wellFormedResult r'"
      "take (length (results @ [r])) results' = results @ [r]"
      "length results' = length (results @ [r]) + length rest"
      "length ks = Suc (length rest)" "length cl = length rest"
      "ks ! 0 = step w1" "ks ! length rest = step w'"
      "cs = concat cl"
      "\<forall>m < length rest.
          handled e bin gcdPath outputDir (rest ! m) (relPaths ! (Suc i + m))
            (ks ! m) (ks ! Suc m) (results' ! (length (results @ [r]) + m)) (cl ! m)"
    by blast
  have pre: "take (length results) results' = results" and at: "results' ! length results = r"
  proof -
    have "take (length results) (take (Suc (length results)) results') = results"
      using ih(7) by simp
    then show "take (length results) results' = results" by (simp add: min_def)
    have "results' ! length results = take (Suc (length results)) results' ! length results"
      by simp
    also have "\<dots> = r" using ih(7) by simp
    finally show "results' ! length results = r" .
  qed
  have hs: "\<forall>m < length (inputPath # rest).
           handled e bin gcdPath outputDir ((inputPath # rest) ! m) (relPaths ! (i + m))
             ((step w # ks) ! m) ((step w # ks) ! Suc m) (results' ! (length results + m))
             ((c # cl) ! m)"
    using handled_shift [of e bin gcdPath outputDir inputPath relPaths i "step w" ks r c rest
        results' "length results" cl] h ih(11,14) at
    by simp
  have count: "length (filter succeeded results')
                 = length (filter succeeded results) + length (filter hashedOK (c @ cs))"
    using ih(5) su h by (cases "succeeded r") (auto simp: handled_def split: option.splits prod.splits)
  have run: "hashFiles e bin jobID gcdPath outputDir n relPaths i (inputPath # rest) results sc st w
               = Some (results', sc + length (filter hashedOK (c @ cs)), st', w')"
    using body ih(1) sc1 by (simp del: hashFiles.simps add: add.assoc)
  show ?case
    by (intro exI [of _ results'] exI [of _ "c @ cs"] exI [of _ st'] exI [of _ w']
              exI [of _ "step w # ks"] exI [of _ "c # cl"])
       (use run ih(2,3,4,6,8,9,10,12,13) c st1 wf nm names pre hs count in
          \<open>auto simp del: hashFiles.simps\<close>)
qed

lemma generateGCD_cmds:
  "\<exists>cs. cmds (snd (snd (generateGCD e version h s w))) = cmds w @ cs \<and> filter hashedOK cs = []"
proof -
  let ?hts = "GetHashtabsForVersion h version"
  consider (zero) "?hts = []" | (one) ht where "?hts = [ht]" | (many) "2 \<le> length ?hts"
    by (cases ?hts rule: remdups_adj.cases) auto
  then show ?thesis
  proof cases
    case zero
    then show ?thesis using generateGCD_none [OF zero, of e s w] by simp
  next
    case one
    then show ?thesis using generateGCD_one [OF one, of e s w] by auto
  next
    case many
    show ?thesis
    proof (cases "exec e (step w) (mergeArgv s version ?hts)")
      case None
      from generateGCD_many_ok [OF many None] obtain w' where
        "cmds (snd (snd (generateGCD e version h s w))) = cmds w @ [(mergeArgv s version ?hts, True)]"
        by auto
      then show ?thesis by (intro exI [of _ "[(mergeArgv s version ?hts, True)]"]) simp
    next
      case (Some x)
      obtain err stderr stdout where "x = (err, stderr, stdout)" by (cases x)
      with Some have ex: "exec e (step w) (mergeArgv s version ?hts) = Some (err, stderr, stdout)"
        by simp
      show ?thesis
        using generateGCD_many_fail [OF many ex]
        by (intro exI [of _ "[(mergeArgv s version ?hts, False)]"]) simp
    qed
  qed
qed

lemma GetGCDHashtab_cmds:
  "\<exists>cs. cmds (snd (snd (snd (GetGCDHashtab e version h s w)))) = cmds w @ cs
        \<and> filter hashedOK cs = []"
proof -
  obtain reloaded err h1 w1 where car: "CheckAndReload e h w = ((reloaded, err), h1, w1)"
    by (metis prod.exhaust)
  have c1: "cmds w1 = cmds w" using CheckAndReload_cmds [of e h w] car by simp
  obtain b w2 where nr: "needsRegen e version h1 s w1 = (b, w2)"
    by (cases "needsRegen e version h1 s w1")
  have c2: "cmds w2 = cmds w" using needsRegen_cmds [of e version h1 s w1] nr c1 by simp
  show ?thesis
  proof (cases "reloaded")
    case True
    from generateGCD_cmds [of e version h1 s w1] c1 obtain cs where
      "cmds (snd (snd (generateGCD e version h1 s w1))) = cmds w @ cs" "filter hashedOK cs = []"
      by auto
    then show ?thesis
      using car True
      by (intro exI [of _ cs]) (auto simp: GetGCDHashtab_def split: prod.splits option.splits)
  next
    case False
    show ?thesis
    proof (cases b)
      case True
      from generateGCD_cmds [of e version h1 s w2] c2 obtain cs where
        "cmds (snd (snd (generateGCD e version h1 s w2))) = cmds w @ cs" "filter hashedOK cs = []"
        by auto
      then show ?thesis
        using car False nr True
        by (intro exI [of _ cs]) (auto simp: GetGCDHashtab_def split: prod.splits option.splits)
    next
      case nb: False
      show ?thesis
        using car False nr nb c2
        by (intro exI [of _ "[]"]) (simp add: GetGCDHashtab_def)
    qed
  qed
qed

lemma UpdateWithOperation_jobs [simp]:
  "jobs (UpdateWithOperation now jid status message data operation st) = jobs st"
  by (simp add: UpdateWithOperation_def Let_def split: option.splits)

lemma Update_job:
  assumes "jobs st jid = Some j"
  shows "Status (heap (Update now jid status message data st) j) = status"
    and "Message (heap (Update now jid status message data st) j) = message"
    and "Files (heap (Update now jid status message data st) j) = Files (heap st j)"
    and "FileCount (heap (Update now jid status message data st) j) = FileCount (heap st j)"
  using assms by (simp_all add: Update_def Let_def)

lemma SetFiles_job:
  assumes "jobs st jid = Some j"
  shows "Files (heap (SetFiles jid files st) j) = files"
    and "FileCount (heap (SetFiles jid files st) j) = int (length files)"
    and "jobs (SetFiles jid files st) = jobs st"
  using assms by (simp_all add: SetFiles_def)

text \<open>
  C5. For a job that is in the store and a batch with a relative path for every
  file, the task does not panic and ends with the job in a terminal status,
  which is \<open>error\<close> if and only if no \<open>hash-diffs\<close> command of the run has
  succeeded, and \<open>success\<close> otherwise. When the merged artifact could be obtained,
  every file of the batch is handled, in order, whatever happened to the files
  before it: the file is copied, \<open>hash-diffs\<close> is run on the copy if the copy
  succeeded, and the job's file list holds at the file's index the result of
  exactly that (success, or the error text of the copy or of the command), under
  the file's relative path. The commands of the run after the merged artifact was
  obtained are the \<open>hash-diffs\<close> commands of the files, in order and nothing else;
  \<open>FileCount\<close> is the number of files; as many results report success as
  \<open>hash-diffs\<close> commands have succeeded; and every other result has the status
  \<open>error\<close> and a non-empty error text. When the merged artifact could not be
  obtained, no file is hashed and the message names the version and the error.
\<close>

theorem processHashJob_terminal_status:
  assumes "jobs (jobStore sys) jobID = Some j" and "length qmdFiles \<le> length relPaths"
  shows "\<exists>sys' w' cs ks cl.
           processHashJob e jobID version qmdFiles relPaths inputDir outputDir sys w = Some (sys', w')
           \<and> cmds w' = cmds w @ cs
           \<and> Status (heap (jobStore sys') j)
               = (if filter hashedOK cs = [] then ''error'' else ''success'')
           \<and> (case fst (GetGCDHashtab e version (hashtabService sys) (gcdCache sys) w) of
                Inl err \<Rightarrow>
                  Message (heap (jobStore sys') j)
                    = ''Version '' @ version @ '' not available: '' @ err
              | Inr gcdPath \<Rightarrow>
                  map fr_Name (Files (heap (jobStore sys') j)) = take (length qmdFiles) relPaths
                  \<and> FileCount (heap (jobStore sys') j) = int (length qmdFiles)
                  \<and> length (filter succeeded (Files (heap (jobStore sys') j)))
                      = length (filter hashedOK cs)
                  \<and> (\<forall>r \<in> set (Files (heap (jobStore sys') j)). wellFormedResult r)
                  \<and> length ks = Suc (length qmdFiles) \<and> length cl = length qmdFiles
                  \<and> ks ! 0
                      = step (snd (snd (snd (GetGCDHashtab e version (hashtabService sys)
                                               (gcdCache sys) w))))
                  \<and> Suc (ks ! length qmdFiles) = step w'
                  \<and> cmds w'
                      = cmds (snd (snd (snd (GetGCDHashtab e version (hashtabService sys)
                                               (gcdCache sys) w)))) @ concat cl
                  \<and> (\<forall>i < length qmdFiles.
                        handled e (qmldiffService sys) gcdPath outputDir (qmdFiles ! i)
                          (relPaths ! i) (ks ! i) (ks ! Suc i)
                          (Files (heap (jobStore sys') j) ! i) (cl ! i)))"
proof -
  let ?st1 = "UpdateWithOperation 0 jobID ''running'' ''Getting GCD hashtab'' None ''preparing''
                (jobStore sys)"
  obtain r h g w1 where gg:
    "GetGCDHashtab e version (hashtabService sys) (gcdCache sys) w = (r, h, g, w1)"
    by (metis prod.exhaust)
  from GetGCDHashtab_cmds [of e version "hashtabService sys" "gcdCache sys" w] gg
  obtain cs1 where cs1: "cmds w1 = cmds w @ cs1" "filter hashedOK cs1 = []" by auto
  have j1: "jobs ?st1 jobID = Some j" using assms(1) by simp
  show ?thesis
  proof (cases r)
    case (Inl err)
    let ?w2 = "snd (time_Now e w1)"
    let ?st = "Update (fst (time_Now e w1)) jobID ''error''
                 (''Version '' @ version @ '' not available: '' @ err) None ?st1"
    have run: "processHashJob e jobID version qmdFiles relPaths inputDir outputDir sys w
                 = Some (sys\<lparr>hashtabService := h, gcdCache := g, jobStore := ?st\<rparr>, ?w2)"
      using gg Inl by (simp add: processHashJob_def Let_def split: prod.splits)
    have "cmds ?w2 = cmds w @ cs1" using cs1 by simp
    then show ?thesis
      using run gg Inl cs1 Update_job [OF j1]
      by (intro exI [of _ "sys\<lparr>hashtabService := h, gcdCache := g, jobStore := ?st\<rparr>"]
                exI [of _ ?w2] exI [of _ cs1] exI [of _ "[]"] exI [of _ "[]"]) simp
  next
    case (Inr gcdPath)
    let ?st2 = "UpdateWithOperation 0 jobID ''running'' ''Hashing files'' None ''hashing'' ?st1"
    have j2: "jobs ?st2 jobID = Some j" using j1 by simp
    have len: "0 + length qmdFiles \<le> length relPaths" using assms(2) by simp
    from hashFiles_spec [OF len, of e "qmldiffService sys" jobID gcdPath outputDir
        "length qmdFiles" "[]" 0 ?st2 w1]
    obtain results cs2 st3 w3 ks cl where loop:
      "hashFiles e (qmldiffService sys) jobID gcdPath outputDir (length qmdFiles) relPaths 0
         qmdFiles [] 0 ?st2 w1 = Some (results, length (filter hashedOK cs2), st3, w3)"
      "cmds w3 = cmds w1 @ cs2" "jobs st3 = jobs ?st2"
      "map fr_Name results = take (length qmdFiles) relPaths"
      "length (filter succeeded results) = length (filter hashedOK cs2)"
      "\<forall>r \<in> set results. wellFormedResult r"
      "length ks = Suc (length qmdFiles)" "length cl = length qmdFiles"
      "ks ! 0 = step w1" "ks ! length qmdFiles = step w3" "cs2 = concat cl"
      "\<forall>m < length qmdFiles.
          handled e (qmldiffService sys) gcdPath outputDir (qmdFiles ! m) (relPaths ! m)
            (ks ! m) (ks ! Suc m) (results ! m) (cl ! m)"
      by auto
    let ?st4 = "SetFiles jobID results st3"
    have j3: "jobs st3 jobID = Some j" using loop(3) j2 by simp
    have j4: "jobs ?st4 jobID = Some j" using SetFiles_job(3) [OF j3] j3 by simp
    let ?now = "fst (time_Now e w3)"
    let ?w4 = "snd (time_Now e w3)"
    let ?st5 = "if length (filter hashedOK cs2) = 0
                then Update ?now jobID ''error'' ''All files failed to hash'' None ?st4
                else Update ?now jobID ''success''
                       (''Hashed '' @ itoa (length (filter hashedOK cs2)) @ '' file(s)'') None ?st4"
    have run: "processHashJob e jobID version qmdFiles relPaths inputDir outputDir sys w
                 = Some (sys\<lparr>hashtabService := h, gcdCache := g, jobStore := ?st5\<rparr>, ?w4)"
      using gg Inr loop(1) by (simp add: processHashJob_def Let_def split: prod.splits)
    have cm: "cmds ?w4 = cmds w @ (cs1 @ cs2)" using cs1 loop(2) by simp
    have flt: "filter hashedOK (cs1 @ cs2) = filter hashedOK cs2" using cs1(2) by simp
    have files: "Files (heap ?st5 j) = results" "FileCount (heap ?st5 j) = int (length results)"
      using Update_job(3,4) [OF j4] SetFiles_job(1,2) [OF j3] by simp_all
    have status: "Status (heap ?st5 j) = (if filter hashedOK cs2 = [] then ''error'' else ''success'')"
      using Update_job(1) [OF j4] by simp
    have lr: "length results = length qmdFiles"
      using loop(4) assms(2) by (metis length_map length_take min.absorb2)
    have st: "step ?w4 = Suc (step w3)" and cm2: "cmds ?w4 = cmds w1 @ concat cl"
      using loop(2,11) by (simp_all add: time_Now_def tick_def)
    show ?thesis
      using run gg Inr cm cm2 st flt files status lr loop(4,5,6,7,8,9,10,12)
      by (intro exI [of _ "sys\<lparr>hashtabService := h, gcdCache := g, jobStore := ?st5\<rparr>"]
                exI [of _ ?w4] exI [of _ "cs1 @ cs2"] exI [of _ ks] exI [of _ cl]) simp
  qed
qed

lemmas task_defs = processHashJob_def HashDiffs_def submitJob_def successResult_def
  errorResult_def itoa.simps

text \<open>
  The example of the specification: two files, the engine fails on the second.
  And a batch of three files where the engine fails on the first: the two files
  after it are hashed.
\<close>

theorem processHashJob_terminal_status_witness:
  "jobs (jobStore exSystem) ''j1'' = Some 0
   \<and> length [''/tmp/in/a.qmd'', ''/tmp/in/b.qmd''] \<le> length [''a.qmd'', ''b.qmd'']
   \<and> map_option (\<lambda>(sys, w).
        (Status (heap (jobStore sys) 0), Message (heap (jobStore sys) 0),
         FileCount (heap (jobStore sys) 0), Files (heap (jobStore sys) 0),
         filter hashedOK (cmds w)))
       (processHashJob exEnvSecondFails ''j1'' exV [''/tmp/in/a.qmd'', ''/tmp/in/b.qmd'']
          [''a.qmd'', ''b.qmd''] ''/tmp/in'' ''/tmp/out'' exSystem io0)
     = Some (''success'', ''Hashed 1 file(s)'', 2,
             [successResult ''a.qmd'',
              errorResult ''b.qmd'' (''Hashing failed: hash-diffs failed: exit status 1'' @ newline
                                      @ ''stderr: bad diff'' @ newline @ ''stdout: '')],
             [([''qmldiff'', ''hash-diffs'', ''gcd/3.25.gcd'', ''/tmp/out/a.qmd''], True)])
   \<and> length [''/tmp/in/b.qmd'', ''/tmp/in/a.qmd'', ''/tmp/in/c.qmd'']
       \<le> length [''b.qmd'', ''a.qmd'', ''c.qmd'']
   \<and> map_option (\<lambda>(sys, w).
        (Status (heap (jobStore sys) 0), Message (heap (jobStore sys) 0),
         FileCount (heap (jobStore sys) 0), map fr_Status (Files (heap (jobStore sys) 0)),
         map snd (cmds w)))
       (processHashJob exEnvSecondFails ''j1'' exV
          [''/tmp/in/b.qmd'', ''/tmp/in/a.qmd'', ''/tmp/in/c.qmd'']
          [''b.qmd'', ''a.qmd'', ''c.qmd''] ''/tmp/in'' ''/tmp/out'' exSystem io0)
     = Some (''success'', ''Hashed 2 file(s)'', 3, [''error'', ''success'', ''success''],
             [True, False, True, True])"
proof -
  have j: "jobs (jobStore exSystem) ''j1'' = Some 0"
    by (simp add: exSystem_def submitJob_def store_defs)
  have l: "length [''/tmp/in/a.qmd'', ''/tmp/in/b.qmd''] \<le> length [''a.qmd'', ''b.qmd'']"
    by simp
  have l3: "length [''/tmp/in/b.qmd'', ''/tmp/in/a.qmd'', ''/tmp/in/c.qmd'']
              \<le> length [''b.qmd'', ''a.qmd'', ''c.qmd'']"
    by simp
  have two: "map_option (\<lambda>(sys, w).
        (Status (heap (jobStore sys) 0), Message (heap (jobStore sys) 0),
         FileCount (heap (jobStore sys) 0), Files (heap (jobStore sys) 0),
         filter hashedOK (cmds w)))
       (processHashJob exEnvSecondFails ''j1'' exV [''/tmp/in/a.qmd'', ''/tmp/in/b.qmd'']
          [''a.qmd'', ''b.qmd''] ''/tmp/in'' ''/tmp/out'' exSystem io0)
     = Some (''success'', ''Hashed 1 file(s)'', 2,
             [successResult ''a.qmd'',
              errorResult ''b.qmd'' (''Hashing failed: hash-diffs failed: exit status 1'' @ newline
                                      @ ''stderr: bad diff'' @ newline @ ''stdout: '')],
             [([''qmldiff'', ''hash-diffs'', ''gcd/3.25.gcd'', ''/tmp/out/a.qmd''], True)])"
    by (simp add: task_defs exSystem_def store_defs cache_defs ex_defs io_defs
        exEnvSecondFails_def hashedOK_def)
  have three: "map_option (\<lambda>(sys, w).
        (Status (heap (jobStore sys) 0), Message (heap (jobStore sys) 0),
         FileCount (heap (jobStore sys) 0), map fr_Status (Files (heap (jobStore sys) 0)),
         map snd (cmds w)))
       (processHashJob exEnvSecondFails ''j1'' exV
          [''/tmp/in/b.qmd'', ''/tmp/in/a.qmd'', ''/tmp/in/c.qmd'']
          [''b.qmd'', ''a.qmd'', ''c.qmd''] ''/tmp/in'' ''/tmp/out'' exSystem io0)
     = Some (''success'', ''Hashed 2 file(s)'', 3, [''error'', ''success'', ''success''],
             [True, False, True, True])"
    by (simp add: task_defs exSystem_def store_defs cache_defs ex_defs io_defs
        exEnvSecondFails_def hashedOK_def)
  from processHashJob_terminal_status
        [OF j l, of exEnvSecondFails exV "''/tmp/in''" "''/tmp/out''" io0]
      processHashJob_terminal_status
        [OF j l3, of exEnvSecondFails exV "''/tmp/in''" "''/tmp/out''" io0]
  show ?thesis
    using j l3 two three by (simp only: l simp_thms)
qed

end
